theory Spec2Isabelle
  imports Main "HOL-Library.Multiset"
begin

section \<open>Python values\<close>

text \<open>
  A Python \<open>str\<close> is a sequence of Unicode code points, and the scripts' messages are
  Chinese, so a string is modelled as the list of its code points. \<open>ascii\<close> embeds an
  ASCII literal.
\<close>

type_synonym pystr = "nat list"

definition ascii :: "string \<Rightarrow> pystr" where
  "ascii cs = map of_char cs"

text \<open>\<open>str(n)\<close> for a Python int, as an f-string renders it.\<close>

fun digits :: "nat \<Rightarrow> pystr" where
  "digits n = (if n < 10 then [48 + n] else digits (n div 10) @ [48 + n mod 10])"

declare digits.simps [simp del]

definition str_int :: "int \<Rightarrow> pystr" where
  "str_int i = (if i < 0 then 45 # digits (nat (- i)) else digits (nat i))"

text \<open>
  The exceptions the scripts tell apart. \<open>DownloadError\<close> is yt-dlp's, a subclass of
  \<open>Exception\<close>; \<open>Exception m\<close> stands for an instance of any other subclass of
  \<open>Exception\<close> whose \<open>str\<close> is \<open>m\<close>. \<open>KeyboardInterrupt\<close> and \<open>SystemExit\<close> derive
  from \<open>BaseException\<close> only, so a clause \<open>except Exception\<close> lets them through.
\<close>

datatype exn = DownloadError pystr | Exception pystr | KeyboardInterrupt | SystemExit int

fun is_Exception :: "exn \<Rightarrow> bool" where
  "is_Exception (DownloadError m) = True"
| "is_Exception (Exception m) = True"
| "is_Exception KeyboardInterrupt = False"
| "is_Exception (SystemExit c) = False"

fun str_exn :: "exn \<Rightarrow> pystr" where
  "str_exn (DownloadError m) = m"
| "str_exn (Exception m) = m"
| "str_exn KeyboardInterrupt = []"
| "str_exn (SystemExit c) = str_int c"

text \<open>The options handed to \<open>YoutubeDL\<close> that depend on the arguments.\<close>

record ydl_opts =
  opt_format :: pystr
  opt_outdir :: pystr
  opt_proxy :: "pystr option"

text \<open>
  What a thread does to the world, in order: a line printed, a directory created, a call
  of \<open>extract_info\<close> that downloads, a \<open>time.sleep\<close>, the rows written to a file, a
  call of \<open>input\<close> with its prompt, a call of \<open>extract_info\<close> that only lists formats.
\<close>

datatype event =
    Print pystr
  | Makedirs pystr
  | Fetch pystr ydl_opts
  | Sleep int
  | WriteRows pystr "pystr list list"
  | Input pystr
  | Probe pystr "pystr option"

fun is_Fetch :: "event \<Rightarrow> bool" where
  "is_Fetch (Fetch u opts) = True"
| "is_Fetch ev = False"

definition fetch_calls :: "event list \<Rightarrow> nat" where
  "fetch_calls log = length (filter is_Fetch log)"

fun slept :: "event \<Rightarrow> int" where
  "slept (Sleep n) = n"
| "slept ev = 0"

definition total_wait :: "event list \<Rightarrow> int" where
  "total_wait log = sum_list (map slept log)"

section \<open>The external fetcher\<close>

text \<open>
  \<open>extract_info\<close> returns a dictionary, returns \<open>None\<close>, or raises. The dictionary is an
  association list from keys to string values.
\<close>

datatype fetch_result = Returns "(pystr \<times> pystr) list option" | Raises exn

text \<open>
  The directory check at the head of \<open>download_video\<close>: the path exists, or it does not and
  \<open>os.makedirs\<close> creates it (\<open>None\<close>) or raises.
\<close>

datatype dir_state = DirExists | DirMissing "exn option"

text \<open>
  The world one call of \<open>download_video\<close> runs in: the state of the output directory, and
  the result of each call of \<open>extract_info\<close> it makes, numbered from 0.
\<close>

record task_env =
  dir :: dir_state
  fetch :: "nat \<Rightarrow> fetch_result"

section \<open>Message literals\<close>

definition msg_created_dir :: pystr where
  "msg_created_dir = [21019, 24314, 30446, 24405, 58, 32]"

definition msg_trying :: pystr where
  "msg_trying = [23581, 35797, 19979, 36733, 32]"

definition msg_done :: pystr where
  "msg_done = [19979, 36733, 23436, 25104, 58, 32]"

definition unknown_title :: pystr where
  "unknown_title = [26410, 30693, 26631, 39064]"

definition msg_no_info :: pystr where
  "msg_no_info = [26080, 27861, 33719, 21462, 35270, 39057, 20449, 24687]"

definition msg_download_error :: pystr where
  "msg_download_error = [19979, 36733, 38169, 35823, 58, 32]"

definition msg_error :: pystr where
  "msg_error = [21457, 29983, 38169, 35823, 58, 32]"

definition msg_wait :: pystr where
  "msg_wait = [31561, 24453, 32]"

definition msg_retry :: pystr where
  "msg_retry = [32, 31186, 21518, 37325, 35797, 46, 46, 46, 32, 40]"

definition msg_give_up :: pystr where
  "msg_give_up = [36798, 21040, 26368, 22823, 37325, 35797, 27425, 25968, 65292,
     19979, 36733, 22833, 36133]"

section \<open>download\_video (batch\_download\_youtube.py)\<close>

definition make_opts :: "pystr \<Rightarrow> pystr option \<Rightarrow> pystr \<Rightarrow> ydl_opts" where
  "make_opts output_path proxy format =
     \<lparr>opt_format = format, opt_outdir = output_path,
      opt_proxy = (case proxy of None \<Rightarrow> None | Some p \<Rightarrow> if p = [] then None else Some p)\<rparr>"

definition ensure_dir :: "dir_state \<Rightarrow> pystr \<Rightarrow> event list \<times> exn option" where
  "ensure_dir d output_path =
     (case d of
        DirExists \<Rightarrow> ([], None)
      | DirMissing None \<Rightarrow> ([Makedirs output_path, Print (msg_created_dir @ output_path)], None)
      | DirMissing (Some e) \<Rightarrow> ([], Some e))"

definition prefix_of :: "int option \<Rightarrow> int option \<Rightarrow> pystr" where
  "prefix_of index total_n =
     (case index of
        None \<Rightarrow> []
      | Some i \<Rightarrow>
          (case total_n of
             None \<Rightarrow> []
           | Some t \<Rightarrow> ascii ''['' @ str_int i @ ascii ''/'' @ str_int t @ ascii ''] ''))"

definition get_title :: "(pystr \<times> pystr) list \<Rightarrow> pystr" where
  "get_title info = (case map_of info (ascii ''title'') of Some t \<Rightarrow> t | None \<Rightarrow> unknown_title)"

text \<open>
  One pass through the \<open>try\<close> block: the title when \<open>info\<close> is truthy, the error message
  recorded when \<open>info\<close> is \<open>None\<close> or empty or when an \<open>Exception\<close> is caught, and the
  exception itself when no clause catches it.
\<close>

datatype attempt = Succeeded pystr | Failed pystr | Escaped exn

fun attempt_of :: "fetch_result \<Rightarrow> attempt" where
  "attempt_of (Returns None) = Failed msg_no_info"
| "attempt_of (Returns (Some [])) = Failed msg_no_info"
| "attempt_of (Returns (Some (kv # info))) = Succeeded (get_title (kv # info))"
| "attempt_of (Raises (DownloadError m)) = Failed (msg_download_error @ m)"
| "attempt_of (Raises (Exception m)) = Failed (msg_error @ m)"
| "attempt_of (Raises KeyboardInterrupt) = Escaped KeyboardInterrupt"
| "attempt_of (Raises (SystemExit c)) = Escaped (SystemExit c)"

definition wait_line :: "pystr \<Rightarrow> int \<Rightarrow> int \<Rightarrow> pystr" where
  "wait_line prefix retries max_retries =
     prefix @ msg_wait @ str_int (2 ^ nat retries) @ msg_retry @ str_int retries
       @ ascii ''/'' @ str_int max_retries @ ascii '')''"

text \<open>
  The \<open>while\<close> loop. The state is \<open>retries\<close>, \<open>error_msg\<close> and the log of what the thread
  has done so far; the n-th call of \<open>extract_info\<close> gets the n-th result of the world.
\<close>

function download_loop ::
  "(nat \<Rightarrow> fetch_result) \<Rightarrow> ydl_opts \<Rightarrow> pystr \<Rightarrow> pystr \<Rightarrow> int \<Rightarrow> int \<Rightarrow> pystr \<Rightarrow> event list
     \<Rightarrow> event list \<times> (exn + bool \<times> pystr \<times> pystr)"
where
  "download_loop fetch_fn opts prefix url max_retries retries error_msg log =
     (if retries < max_retries then
        (let log1 = log @ [Print (prefix @ msg_trying @ url @ ascii ''...''), Fetch url opts] in
         case attempt_of (fetch_fn (fetch_calls log)) of
           Succeeded title \<Rightarrow>
             (log1 @ [Print (prefix @ msg_done @ title)], Inr (True, title, []))
         | Escaped e \<Rightarrow> (log1, Inl e)
         | Failed msg \<Rightarrow>
             (let log2 = log1 @ [Print (prefix @ msg)] in
              if retries + 1 < max_retries then
                download_loop fetch_fn opts prefix url max_retries (retries + 1) msg
                  (log2 @ [Print (wait_line prefix (retries + 1) max_retries),
                           Sleep (2 ^ nat (retries + 1))])
              else
                download_loop fetch_fn opts prefix url max_retries (retries + 1) msg log2))
      else (log @ [Print (prefix @ msg_give_up)], Inr (False, [], error_msg)))"
  by pat_completeness auto
termination
  by (relation "measure (\<lambda>(f, opts, p, u, max_retries, retries, e, l). nat (max_retries - retries))")
    auto

declare download_loop.simps [simp del]

definition download_video ::
  "task_env \<Rightarrow> pystr \<Rightarrow> pystr \<Rightarrow> pystr option \<Rightarrow> pystr \<Rightarrow> int \<Rightarrow> int option \<Rightarrow> int option
     \<Rightarrow> event list \<times> (exn + bool \<times> pystr \<times> pystr)"
where
  "download_video env url output_path proxy format max_retries index total_n =
     (case ensure_dir (dir env) output_path of
        (log, Some e) \<Rightarrow> (log, Inl e)
      | (log, None) \<Rightarrow>
          download_loop (fetch env) (make_opts output_path proxy format)
            (prefix_of index total_n) url max_retries 0 [] log)"

text \<open>
  A failed attempt, as the loop treats it: \<open>extract_info\<close> returns \<open>None\<close> or an empty
  dictionary, or raises an instance of \<open>Exception\<close> (a \<open>DownloadError\<close> or any other).
\<close>

fun fetch_fails :: "fetch_result \<Rightarrow> bool" where
  "fetch_fails (Returns None) = True"
| "fetch_fails (Returns (Some [])) = True"
| "fetch_fails (Returns (Some (kv # info))) = False"
| "fetch_fails (Raises e) = is_Exception e"

fun dir_ready :: "dir_state \<Rightarrow> bool" where
  "dir_ready DirExists = True"
| "dir_ready (DirMissing None) = True"
| "dir_ready (DirMissing (Some e)) = False"

section \<open>download\_video (download\_youtube\_yt\_dlp.py)\<close>

text \<open>
  The single-download script has the same loop without the progress prefix and without
  \<open>error_msg\<close>; it returns a \<open>bool\<close>.
\<close>

function download_loop_single ::
  "(nat \<Rightarrow> fetch_result) \<Rightarrow> ydl_opts \<Rightarrow> pystr \<Rightarrow> int \<Rightarrow> int \<Rightarrow> event list
     \<Rightarrow> event list \<times> (exn + bool)"
where
  "download_loop_single fetch_fn opts url max_retries retries log =
     (if retries < max_retries then
        (let log1 = log @ [Print (msg_trying @ url @ ascii ''...''), Fetch url opts] in
         case attempt_of (fetch_fn (fetch_calls log)) of
           Succeeded title \<Rightarrow> (log1 @ [Print (msg_done @ title)], Inr True)
         | Escaped e \<Rightarrow> (log1, Inl e)
         | Failed msg \<Rightarrow>
             (let log2 = log1 @ [Print msg] in
              if retries + 1 < max_retries then
                download_loop_single fetch_fn opts url max_retries (retries + 1)
                  (log2 @ [Print (wait_line [] (retries + 1) max_retries),
                           Sleep (2 ^ nat (retries + 1))])
              else
                download_loop_single fetch_fn opts url max_retries (retries + 1) log2))
      else (log @ [Print msg_give_up], Inr False))"
  by pat_completeness auto
termination
  by (relation "measure (\<lambda>(f, opts, u, max_retries, retries, l). nat (max_retries - retries))")
    auto

declare download_loop_single.simps [simp del]

definition download_video_single ::
  "task_env \<Rightarrow> pystr \<Rightarrow> pystr \<Rightarrow> pystr option \<Rightarrow> pystr \<Rightarrow> int \<Rightarrow> event list \<times> (exn + bool)"
where
  "download_video_single env url output_path proxy format max_retries =
     (case ensure_dir (dir env) output_path of
        (log, Some e) \<Rightarrow> (log, Inl e)
      | (log, None) \<Rightarrow>
          download_loop_single (fetch env) (make_opts output_path proxy format)
            url max_retries 0 log)"

section \<open>read\_urls\_from\_file\<close>

text \<open>
  \<open>os.path.splitext\<close> as \<open>posixpath\<close> defines it: the extension starts at the last dot
  of the last path component, unless only dots precede it there.
\<close>

definition rfind :: "pystr \<Rightarrow> nat \<Rightarrow> int" where
  "rfind p c = (case filter (\<lambda>i. p ! i = c) (rev [0..<length p]) of [] \<Rightarrow> - 1 | i # _ \<Rightarrow> int i)"

definition splitext :: "pystr \<Rightarrow> pystr \<times> pystr" where
  "splitext p =
     (let sepIndex = rfind p 47; dotIndex = rfind p 46 in
      if dotIndex > sepIndex \<and> list_ex (\<lambda>i. p ! i \<noteq> 46) [nat (sepIndex + 1)..<nat dotIndex]
      then (take (nat dotIndex) p, drop (nat dotIndex) p)
      else (p, []))"

text \<open>
  \<open>str.lower\<close> on the ASCII letters. The scripts only compare its result with \<open>'.csv'\<close>
  and \<open>'y'\<close>, and no code point outside ASCII lowers to one of these letters.
\<close>

definition lower :: "pystr \<Rightarrow> pystr" where
  "lower s = map (\<lambda>c. if 65 \<le> c \<and> c \<le> 90 then c + 32 else c) s"

text \<open>\<open>str.isspace\<close> for one code point, and \<open>str.strip()\<close>.\<close>

definition isspace :: "nat \<Rightarrow> bool" where
  "isspace c \<longleftrightarrow>
     (9 \<le> c \<and> c \<le> 13) \<or> (28 \<le> c \<and> c \<le> 32) \<or> c = 133 \<or> c = 160 \<or> c = 5760
     \<or> (8192 \<le> c \<and> c \<le> 8202) \<or> c = 8232 \<or> c = 8233 \<or> c = 8239 \<or> c = 8287 \<or> c = 12288"

definition strip :: "pystr \<Rightarrow> pystr" where
  "strip s = rev (dropWhile isspace (rev (dropWhile isspace s)))"

fun startswith_hash :: "pystr \<Rightarrow> bool" where
  "startswith_hash [] = False"
| "startswith_hash (c # cs) = (c = 35)"

text \<open>
  The file at \<open>file_path\<close>, as the library shows it to the script: \<open>open\<close> raises or not;
  iterating the file yields its lines; iterating \<open>csv.reader\<close> over it yields its rows. An
  \<open>Inl e\<close> in either sequence is the point where the iteration raises \<open>e\<close> (a decoding
  error, an I/O error, a \<open>csv.Error\<close>).
\<close>

record file_env =
  open_error :: "exn option"
  file_lines :: "(exn + pystr) list"
  csv_rows :: "(exn + pystr list) list"

definition msg_read_error :: pystr where
  "msg_read_error = [35835, 21462, 25991, 20214, 26102, 20986, 38169, 58, 32]"

text \<open>The two \<open>for\<close> loops; each returns \<open>urls\<close> and the exception that ended it, if any.\<close>

fun read_rows :: "(exn + pystr list) list \<Rightarrow> pystr list \<Rightarrow> pystr list \<times> exn option" where
  "read_rows [] urls = (urls, None)"
| "read_rows (Inl e # rest) urls = (urls, Some e)"
| "read_rows (Inr [] # rest) urls = read_rows rest urls"
| "read_rows (Inr (c # cs) # rest) urls =
     (if strip c \<noteq> [] then read_rows rest (urls @ [strip c]) else read_rows rest urls)"

fun read_lines :: "(exn + pystr) list \<Rightarrow> pystr list \<Rightarrow> pystr list \<times> exn option" where
  "read_lines [] urls = (urls, None)"
| "read_lines (Inl e # rest) urls = (urls, Some e)"
| "read_lines (Inr line0 # rest) urls =
     (let line = strip line0 in
      if line \<noteq> [] \<and> \<not> startswith_hash line then read_lines rest (urls @ [line])
      else read_lines rest urls)"

definition read_urls_from_file :: "file_env \<Rightarrow> pystr \<Rightarrow> event list \<times> (exn + pystr list)" where
  "read_urls_from_file f file_path =
     (let ext = lower (snd (splitext file_path));
          r = (case open_error f of
                 Some e \<Rightarrow> ([], Some e)
               | None \<Rightarrow>
                   if ext = ascii ''.csv'' then read_rows (csv_rows f) []
                   else read_lines (file_lines f) [])
      in case r of
           (urls, None) \<Rightarrow> ([], Inr urls)
         | (urls, Some e) \<Rightarrow>
             if is_Exception e then ([Print (msg_read_error @ str_exn e)], Inr urls)
             else ([], Inl e))"

section \<open>save\_results\<close>

type_synonym outcome = "pystr \<times> bool \<times> pystr \<times> pystr"

definition msg_saved :: pystr where
  "msg_saved = [19979, 36733, 32467, 26524, 24050, 20445, 23384, 21040, 58, 32]"

definition msg_save_error :: pystr where
  "msg_save_error = [20445, 23384, 32467, 26524, 26102, 20986, 38169, 58, 32]"

definition report_header :: "pystr list" where
  "report_header = [ascii ''URL'', [29366, 24577], [26631, 39064], [38169, 35823, 20449, 24687]]"

definition report_row :: "outcome \<Rightarrow> pystr list" where
  "report_row r =
     (case r of (url, success, title, error) \<Rightarrow>
        [url, if success then [25104, 21151] else [22833, 36133], title, error])"

text \<open>\<open>os.path.join\<close> of two components, as \<open>posixpath\<close> defines it.\<close>

definition path_join :: "pystr \<Rightarrow> pystr \<Rightarrow> pystr" where
  "path_join a b =
     (if b \<noteq> [] \<and> hd b = 47 then b
      else if a = [] \<or> last a = 47 then a @ b
      else a @ [47] @ b)"

text \<open>
  \<open>w\<close> is what opening and writing the report file does: it succeeds (\<open>None\<close>) or raises.
\<close>

definition save_results :: "exn option \<Rightarrow> outcome list \<Rightarrow> pystr \<Rightarrow> event list \<times> exn option" where
  "save_results w results output_path =
     (let result_file = path_join output_path (ascii ''download_results.csv'') in
      case w of
        None \<Rightarrow>
          ([WriteRows result_file (report_header # map report_row results),
            Print (msg_saved @ result_file)], None)
      | Some e \<Rightarrow>
          if is_Exception e then ([Print (msg_save_error @ str_exn e)], None)
          else ([], Some e))"

section \<open>batch\_download\<close>

text \<open>
  The world of one batch run: the world of the task submitted i-th, what \<open>as_completed\<close>
  yields (a future, named by its submission index, or an exception raised in the main
  thread while it waits, such as \<open>KeyboardInterrupt\<close>), and what writing the report does.
\<close>

record batch_env =
  task :: "nat \<Rightarrow> task_env"
  completed :: "(exn + nat) list"
  report :: "exn option"

definition msg_start :: pystr where
  "msg_start = [24320, 22987, 25209, 37327, 19979, 36733, 32]"

definition msg_videos :: pystr where
  "msg_videos = [32, 20010, 35270, 39057, 46, 46, 46]"

definition msg_result_error :: pystr where
  "msg_result_error = [22788, 29702, 19979, 36733, 32467, 26524, 26102, 20986, 38169, 58, 32]"

definition msg_summary :: pystr where
  "msg_summary = [10, 25209, 37327, 19979, 36733, 23436, 25104, 58, 32, 25104, 21151, 32]"

text \<open>
  The loop over \<open>as_completed\<close>. \<open>result i\<close> is what \<open>future.result()\<close> returns or raises for
  the i-th future. \<open>as_completed\<close> yields only futures it was given, so the \<open>KeyError\<close>
  of the dictionary lookup is a branch the library never takes.
\<close>

fun collect ::
  "(nat \<Rightarrow> exn + bool \<times> pystr \<times> pystr) \<Rightarrow> (nat \<rightharpoonup> pystr) \<Rightarrow> (exn + nat) list
     \<Rightarrow> event list \<Rightarrow> outcome list \<Rightarrow> event list \<times> (exn + outcome list)"
where
  "collect result future_to_url [] log results = (log, Inr results)"
| "collect result future_to_url (Inl e # rest) log results = (log, Inl e)"
| "collect result future_to_url (Inr i # rest) log results =
     (case future_to_url i of
        None \<Rightarrow> (log, Inl (Exception (ascii ''KeyError'')))
      | Some url \<Rightarrow>
          (case result i of
             Inr (success, title, error) \<Rightarrow>
               collect result future_to_url rest log (results @ [(url, success, title, error)])
           | Inl e \<Rightarrow>
               if is_Exception e then
                 collect result future_to_url rest
                   (log @ [Print (msg_result_error @ str_exn e)])
                   (results @ [(url, False, [], str_exn e)])
               else (log, Inl e)))"

text \<open>What the worker thread of the i-th task does, and what its future holds.\<close>

definition run_task ::
  "batch_env \<Rightarrow> pystr list \<Rightarrow> pystr \<Rightarrow> pystr option \<Rightarrow> pystr \<Rightarrow> int \<Rightarrow> nat
     \<Rightarrow> event list \<times> (exn + bool \<times> pystr \<times> pystr)"
where
  "run_task env urls output_path proxy format max_retries i =
     download_video (task env i) (urls ! i) output_path proxy format max_retries
       (Some (int i + 1)) (Some (int (length urls)))"

text \<open>
  The log is the main thread's; the lines the workers print fall between its lines in an
  order the model does not fix.
\<close>

definition batch_download ::
  "batch_env \<Rightarrow> pystr list \<Rightarrow> pystr \<Rightarrow> pystr option \<Rightarrow> pystr \<Rightarrow> int \<Rightarrow> int
     \<Rightarrow> event list \<times> (exn + outcome list)"
where
  "batch_download env urls output_path proxy format max_workers max_retries =
     (let total_n = int (length urls);
          log0 = [Print (msg_start @ str_int total_n @ msg_videos)]
      in
        if max_workers \<le> 0 then
          (log0, Inl (Exception (ascii ''max_workers must be greater than 0'')))
        else
          (case collect (\<lambda>i. snd (run_task env urls output_path proxy format max_retries i))
                  (map_of (zip [0..<length urls] urls)) (completed env) log0 [] of
             (log1, Inl e) \<Rightarrow> (log1, Inl e)
           | (log1, Inr results) \<Rightarrow>
               (let success_count = length (filter (\<lambda>(url, success, title, error). success) results);
                    log2 = log1 @ [Print (msg_summary @ str_int (int success_count) @ ascii ''/''
                                           @ str_int total_n)]
                in case save_results (report env) results output_path of
                     (log3, Some e) \<Rightarrow> (log2 @ log3, Inl e)
                   | (log3, None) \<Rightarrow> (log2 @ log3, Inr results))))"

section \<open>Sequencing in the main thread\<close>

text \<open>
  The state of the main thread: what the coming calls of \<open>input\<close> return or raise (an
  \<open>EOFError\<close> once the list is used up), and what it has done so far. A program returns a
  value or raises.
\<close>

record io =
  stdin :: "(exn + pystr) list"
  out :: "event list"

type_synonym 'a prog = "io \<Rightarrow> io \<times> (exn + 'a)"

definition io_return :: "'a \<Rightarrow> 'a prog" where
  "io_return x s = (s, Inr x)"

definition io_bind :: "'a prog \<Rightarrow> ('a \<Rightarrow> 'b prog) \<Rightarrow> 'b prog" where
  "io_bind m f s = (case m s of (s', Inl e) \<Rightarrow> (s', Inl e) | (s', Inr x) \<Rightarrow> f x s')"

definition io_print :: "pystr \<Rightarrow> unit prog" where
  "io_print line s = (s\<lparr>out := out s @ [Print line]\<rparr>, Inr ())"

definition io_input :: "pystr \<Rightarrow> pystr prog" where
  "io_input prompt s =
     (case stdin s of
        [] \<Rightarrow> (s\<lparr>out := out s @ [Input prompt]\<rparr>, Inl (Exception (ascii ''EOF when reading a line'')))
      | x # rest \<Rightarrow> (s\<lparr>stdin := rest, out := out s @ [Input prompt]\<rparr>, x))"

text \<open>A call of one of the functions above, whose effects are a log.\<close>

definition io_call :: "event list \<times> (exn + 'a) \<Rightarrow> 'a prog" where
  "io_call r s = (s\<lparr>out := out s @ fst r\<rparr>, snd r)"

definition truthy :: "pystr option \<Rightarrow> bool" where
  "truthy x = (case x of None \<Rightarrow> False | Some v \<Rightarrow> v \<noteq> [])"

definition str_opt :: "pystr option \<Rightarrow> pystr" where
  "str_opt x = (case x of None \<Rightarrow> ascii ''None'' | Some v \<Rightarrow> v)"

definition is_yes :: "pystr \<Rightarrow> bool" where
  "is_yes answer \<longleftrightarrow> strip (lower answer) = ascii ''y''"

definition msg_ask_path :: pystr where
  "msg_ask_path = [35831, 36755, 20837, 20445, 23384, 36335, 24452, 65288, 30041, 31354,
     20026, 24403, 21069, 30446, 24405, 65289, 58, 32]"

definition msg_use_proxy :: pystr where
  "msg_use_proxy = [26159, 21542, 20351, 29992, 20195, 29702, 32]"

definition msg_yn :: pystr where
  "msg_yn = [65311, 40, 121, 47, 110, 41, 58, 32]"

definition msg_custom_proxy :: pystr where
  "msg_custom_proxy = [35831, 36755, 20837, 33258, 23450, 20041, 20195, 29702, 22320, 22336,
     65288, 30041, 31354, 20351, 29992, 40664, 35748, 20540, 65289, 58, 32]"

definition msg_cfg_path :: pystr where
  "msg_cfg_path = [20445, 23384, 36335, 24452, 58, 32]"

definition msg_cfg_proxy :: pystr where
  "msg_cfg_proxy = [20195, 29702, 35774, 32622, 58, 32]"

definition msg_cfg_format :: pystr where
  "msg_cfg_format = [35270, 39057, 26684, 24335, 58, 32]"

definition msg_interrupted :: pystr where
  "msg_interrupted = [10, 29992, 25143, 21462, 28040, 25805, 20316]"

definition msg_top_error :: pystr where
  "msg_top_error = [10, 21457, 29983, 38169, 35823, 58, 32]"

text \<open>
  The two prompts both scripts share. \<open>interactive\<close> is \<open>not (args.file or args.urls)\<close> in
  the batch script and \<open>not args.url\<close> in the other.
\<close>

definition ask_path :: "bool \<Rightarrow> pystr \<Rightarrow> pystr prog" where
  "ask_path interactive path =
     (if path = ascii ''.'' \<and> interactive then
        io_bind (io_input msg_ask_path)
          (\<lambda>answer. io_return (if strip answer = [] then ascii ''.'' else strip answer))
      else io_return path)"

definition ask_proxy :: "bool \<Rightarrow> bool \<Rightarrow> pystr \<Rightarrow> pystr option prog" where
  "ask_proxy interactive no_proxy default_proxy =
     (let proxy = (if no_proxy then None else Some default_proxy) in
      if interactive \<and> \<not> no_proxy then
        io_bind (io_input (msg_use_proxy @ str_opt proxy @ msg_yn))
          (\<lambda>answer.
             if \<not> is_yes answer then io_return None
             else
               io_bind (io_input msg_custom_proxy)
                 (\<lambda>custom. io_return (if strip custom = [] then proxy else Some (strip custom))))
      else io_return proxy)"

text \<open>
  The \<open>except\<close> clauses that end both \<open>main\<close> functions: \<open>sys.exit\<close> raises \<open>SystemExit\<close>.
\<close>

definition main_handlers :: "unit prog \<Rightarrow> unit prog" where
  "main_handlers body s =
     (case body s of
        (s', Inr u) \<Rightarrow> (s', Inr u)
      | (s', Inl KeyboardInterrupt) \<Rightarrow>
          (s'\<lparr>out := out s' @ [Print msg_interrupted]\<rparr>, Inl (SystemExit 0))
      | (s', Inl (DownloadError m)) \<Rightarrow>
          (s'\<lparr>out := out s' @ [Print (msg_top_error @ m)]\<rparr>, Inl (SystemExit 1))
      | (s', Inl (Exception m)) \<Rightarrow>
          (s'\<lparr>out := out s' @ [Print (msg_top_error @ m)]\<rparr>, Inl (SystemExit 1))
      | (s', Inl (SystemExit c)) \<Rightarrow> (s', Inl (SystemExit c)))"

text \<open>
  The exit status of the process when \<open>main()\<close> returns or raises at the top level of the
  script: 0 on return, the code of a \<open>SystemExit\<close>, 1 for an uncaught \<open>Exception\<close> and, on
  POSIX, 130 for an uncaught \<open>KeyboardInterrupt\<close>.
\<close>

fun exit_status :: "exn + unit \<Rightarrow> int" where
  "exit_status (Inr u) = 0"
| "exit_status (Inl (SystemExit c)) = c"
| "exit_status (Inl KeyboardInterrupt) = 130"
| "exit_status (Inl (DownloadError m)) = 1"
| "exit_status (Inl (Exception m)) = 1"

section \<open>main (batch\_download\_youtube.py)\<close>

record args =
  arg_file :: "pystr option"
  arg_urls :: "pystr list option"
  arg_path :: pystr
  arg_proxy :: pystr
  arg_format :: pystr
  arg_no_proxy :: bool
  arg_workers :: int
  arg_retries :: int

text \<open>
  The world of one run of the batch script: what \<open>parse_args\<close> returns or raises
  (\<open>SystemExit\<close> on a bad command line), the file named by \<open>--file\<close>, and the batch run.
\<close>

record main_env =
  parsed :: "exn + args"
  input_file :: file_env
  batch :: batch_env

definition msg_from_file :: pystr where
  "msg_from_file = [20174, 25991, 20214, 32]"

definition msg_read :: pystr where
  "msg_read = [32, 20013, 35835, 21462, 20102, 32]"

definition msg_urls :: pystr where
  "msg_urls = [32, 20010, 85, 82, 76]"

definition msg_from_args :: pystr where
  "msg_from_args = [20174, 21629, 20196, 34892, 21442, 25968, 20013, 35835, 21462, 20102, 32]"

definition msg_enter_urls :: pystr where
  "msg_enter_urls = [35831, 36755, 20837, 89, 111, 117, 84, 117, 98, 101, 35270, 39057,
     38142, 25509, 65288, 27599, 34892, 19968, 20010, 65292, 36755, 20837, 31354, 34892,
     32467, 26463, 65289, 58]"

definition msg_no_urls :: pystr where
  "msg_no_urls = [27809, 26377, 25552, 20379, 20219, 20309, 85, 82, 76, 65292, 36864, 20986,
     31243, 24207]"

definition msg_cfg_count :: pystr where
  "msg_cfg_count = [19979, 36733, 85, 82, 76, 25968, 37327, 58, 32]"

definition msg_cfg_workers :: pystr where
  "msg_cfg_workers = [24182, 21457, 19979, 36733, 25968, 58, 32]"

definition msg_cfg_retries :: pystr where
  "msg_cfg_retries = [26368, 22823, 37325, 35797, 27425, 25968, 58, 32]"

definition msg_confirm :: pystr where
  "msg_confirm = [26159, 21542, 24320, 22987, 19979, 36733, 65311, 40, 121, 47, 110, 41, 58, 32]"

definition msg_cancelled :: pystr where
  "msg_cancelled = [29992, 25143, 21462, 28040, 19979, 36733]"

text \<open>The \<open>while True\<close> loop that reads URLs until a blank line.\<close>

fun read_interactive ::
  "(exn + pystr) list \<Rightarrow> event list \<Rightarrow> pystr list \<Rightarrow> io \<times> (exn + pystr list)"
where
  "read_interactive [] log urls =
     (\<lparr>stdin = [], out = log @ [Input []]\<rparr>, Inl (Exception (ascii ''EOF when reading a line'')))"
| "read_interactive (Inl e # rest) log urls = (\<lparr>stdin = rest, out = log @ [Input []]\<rparr>, Inl e)"
| "read_interactive (Inr answer # rest) log urls =
     (if strip answer = [] then (\<lparr>stdin = rest, out = log @ [Input []]\<rparr>, Inr urls)
      else read_interactive rest (log @ [Input []]) (urls @ [strip answer]))"

definition is_interactive :: "args \<Rightarrow> bool" where
  "is_interactive a \<longleftrightarrow>
     \<not> (truthy (arg_file a) \<or> (case arg_urls a of None \<Rightarrow> False | Some us \<Rightarrow> us \<noteq> []))"

definition get_urls :: "main_env \<Rightarrow> args \<Rightarrow> pystr list prog" where
  "get_urls env a =
     (if truthy (arg_file a) then
        io_bind (io_call (read_urls_from_file (input_file env) (str_opt (arg_file a))))
          (\<lambda>urls.
             io_bind (io_print (msg_from_file @ str_opt (arg_file a) @ msg_read
                         @ str_int (int (length urls)) @ msg_urls))
               (\<lambda>u. io_return urls))
      else
        (case arg_urls a of
           Some (u # us) \<Rightarrow>
             io_bind (io_print (msg_from_args @ str_int (int (length (u # us))) @ msg_urls))
               (\<lambda>x. io_return (u # us))
         | _ \<Rightarrow>
             io_bind (io_print msg_enter_urls)
               (\<lambda>x s. read_interactive (stdin s) (out s) [])))"

definition print_config :: "pystr list \<Rightarrow> pystr \<Rightarrow> pystr option \<Rightarrow> args \<Rightarrow> unit prog" where
  "print_config urls download_path proxy a s =
     (s\<lparr>out := out s @
         [Print (msg_cfg_count @ str_int (int (length urls))),
          Print (msg_cfg_path @ download_path),
          Print (msg_cfg_proxy @ str_opt proxy),
          Print (msg_cfg_format @ arg_format a),
          Print (msg_cfg_workers @ str_int (arg_workers a)),
          Print (msg_cfg_retries @ str_int (arg_retries a))]\<rparr>, Inr ())"

text \<open>The last statement of the \<open>try\<close> block: the results are not looked at.\<close>

definition start_batch ::
  "main_env \<Rightarrow> args \<Rightarrow> pystr list \<Rightarrow> pystr \<Rightarrow> pystr option \<Rightarrow> unit prog"
where
  "start_batch env a urls download_path proxy =
     io_bind (io_call (batch_download (batch env) urls download_path proxy (arg_format a)
                (arg_workers a) (arg_retries a)))
       (\<lambda>results. io_return ())"

definition main_body :: "main_env \<Rightarrow> unit prog" where
  "main_body env =
     io_bind (\<lambda>s. (s, parsed env))
       (\<lambda>a. io_bind (get_urls env a)
          (\<lambda>urls.
             if urls = [] then io_print msg_no_urls
             else
               io_bind (ask_path (is_interactive a) (arg_path a))
                 (\<lambda>download_path.
                    io_bind (ask_proxy (is_interactive a) (arg_no_proxy a) (arg_proxy a))
                      (\<lambda>proxy.
                         io_bind (print_config urls download_path proxy a)
                           (\<lambda>u.
                              if is_interactive a then
                                io_bind (io_input msg_confirm)
                                  (\<lambda>confirm.
                                     if strip (lower confirm) \<noteq> ascii ''y''
                                     then io_print msg_cancelled
                                     else start_batch env a urls download_path proxy)
                              else start_batch env a urls download_path proxy)))))"

definition main :: "main_env \<Rightarrow> unit prog" where
  "main env = main_handlers (main_body env)"

section \<open>list\_formats and main (download\_youtube\_yt\_dlp.py)\<close>

text \<open>
  What \<open>extract_info(url, download=False)\<close> does in \<open>list_formats\<close>: it raises, returns
  nothing, or returns the formats. The table line of a format is taken as rendered (it
  holds a file size printed as a float); \<open>Inl e\<close> is a format whose rendering raises \<open>e\<close>.
\<close>

datatype formats_result = RaisesF exn | NoInfoF | Formats "(exn + pystr) list"

definition msg_no_formats :: pystr where
  "msg_no_formats = [27809, 26377, 21487, 29992, 30340, 26684, 24335]"

definition msg_formats_title :: pystr where
  "msg_formats_title = [10, 21487, 29992, 30340, 35270, 39057, 26684, 24335, 58]"

definition msg_rule :: pystr where
  "msg_rule = replicate 80 45"

definition msg_formats_header :: pystr where
  "msg_formats_header = [26684, 24335, 73, 68] @ replicate 6 32 @ [25193, 23637, 21517]
     @ replicate 7 32 @ [20998, 36776, 29575] @ replicate 12 32
     @ [25991, 20214, 22823, 23567] @ replicate 11 32 @ [22791, 27880] @ replicate 18 32"

definition msg_special :: pystr where
  "msg_special = [29305, 27530, 26684, 24335, 36873, 39033, 58]"

definition msg_best :: pystr where
  "msg_best = ascii ''best       - '' @ [26368, 20339, 35270, 39057, 21644, 38899, 39057, 36136, 37327]"

definition msg_bestvideo :: pystr where
  "msg_bestvideo = ascii ''bestvideo+bestaudio - '' @ [20998, 21035, 36873, 25321, 26368,
     20339, 35270, 39057, 21644, 38899, 39057, 24182, 21512, 24182]"

definition msg_formats_error :: pystr where
  "msg_formats_error = [33719, 21462, 26684, 24335, 21015, 34920, 26102, 20986, 38169, 58, 32]"

fun print_formats :: "(exn + pystr) list \<Rightarrow> event list \<Rightarrow> event list \<times> exn option" where
  "print_formats [] log = (log, None)"
| "print_formats (Inl e # rest) log = (log, Some e)"
| "print_formats (Inr line # rest) log = print_formats rest (log @ [Print line])"

definition list_formats ::
  "formats_result \<Rightarrow> pystr \<Rightarrow> pystr option \<Rightarrow> event list \<times> (exn + (exn + pystr) list)"
where
  "list_formats w url proxy =
     (let log0 = [Probe url (if truthy proxy then proxy else None)];
          r = (case w of
                 RaisesF e \<Rightarrow> (log0, Inl e)
               | NoInfoF \<Rightarrow> (log0 @ [Print msg_no_info], Inr [])
               | Formats [] \<Rightarrow> (log0 @ [Print msg_no_formats], Inr [])
               | Formats (f # fs) \<Rightarrow>
                   (case print_formats (f # fs)
                           (log0 @ [Print msg_formats_title, Print msg_rule,
                                    Print msg_formats_header, Print msg_rule]) of
                      (log1, Some e) \<Rightarrow> (log1, Inl e)
                    | (log1, None) \<Rightarrow>
                        (log1 @ [Print msg_rule, Print msg_special, Print msg_best,
                                 Print msg_bestvideo, Print msg_rule], Inr (f # fs))))
      in case r of
           (log, Inr formats) \<Rightarrow> (log, Inr formats)
         | (log, Inl e) \<Rightarrow>
             if is_Exception e then (log @ [Print (msg_formats_error @ str_exn e)], Inr [])
             else (log, Inl e))"

record single_args =
  sarg_url :: "pystr option"
  sarg_path :: pystr
  sarg_proxy :: pystr
  sarg_format :: pystr
  sarg_no_proxy :: bool
  sarg_list_formats :: bool

text \<open>
  The world of one run of the single-download script: the command line, the format
  listing, and the worlds of the download through the proxy and of the direct one.
\<close>

record single_env =
  sparsed :: "exn + single_args"
  listing :: formats_result
  first_try :: task_env
  direct_try :: task_env

definition msg_ask_url :: pystr where
  "msg_ask_url = [35831, 36755, 20837, 89, 111, 117, 84, 117, 98, 101, 35270, 39057, 38142,
     25509, 58, 32]"

definition msg_cfg_url :: pystr where
  "msg_cfg_url = [35270, 39057, 38142, 25509, 58, 32]"

definition msg_ask_list :: pystr where
  "msg_ask_list = [26159, 21542, 21015, 20986, 21487, 29992, 30340, 35270, 39057, 26684,
     24335, 65311, 40, 121, 47, 110, 41, 58, 32]"

definition msg_ask_format :: pystr where
  "msg_ask_format = [35831, 36873, 25321, 26684, 24335, 73, 68, 65288, 30452, 25509, 22238,
     36710, 20351, 29992, 98, 101, 115, 116, 65289, 58, 32]"

definition msg_ask_direct :: pystr where
  "msg_ask_direct = [20351, 29992, 20195, 29702, 19979, 36733, 22833, 36133, 65292, 26159,
     21542, 23581, 35797, 30452, 25509, 19979, 36733, 65311, 40, 121, 47, 110, 41, 58, 32]"

definition msg_direct :: pystr where
  "msg_direct = [23581, 35797, 30452, 25509, 19979, 36733, 46, 46, 46]"

definition choose_format :: "single_env \<Rightarrow> single_args \<Rightarrow> pystr \<Rightarrow> pystr option \<Rightarrow> pystr prog" where
  "choose_format env a video_url proxy =
     io_bind (if sarg_list_formats a then io_return True
              else if \<not> truthy (sarg_url a) then
                io_bind (io_input msg_ask_list) (\<lambda>answer. io_return (is_yes answer))
              else io_return False)
       (\<lambda>wanted.
          if wanted then
            io_bind (io_call (list_formats (listing env) video_url proxy))
              (\<lambda>formats.
                 if formats \<noteq> [] \<and> sarg_format a = [] then
                   io_bind (io_input msg_ask_format)
                     (\<lambda>choice. io_return (if strip choice = [] then sarg_format a
                                            else strip choice))
                 else io_return (sarg_format a))
          else io_return (sarg_format a))"

definition download_with_fallback ::
  "single_env \<Rightarrow> single_args \<Rightarrow> pystr \<Rightarrow> pystr \<Rightarrow> pystr option \<Rightarrow> pystr \<Rightarrow> unit prog"
where
  "download_with_fallback env a video_url download_path proxy video_format =
     io_bind (io_call (download_video_single (first_try env) video_url download_path proxy
                video_format 3))
       (\<lambda>success.
          if \<not> success \<and> truthy proxy then
            io_bind (io_input msg_ask_direct)
              (\<lambda>answer.
                 if is_yes answer then
                   io_bind (io_print msg_direct)
                     (\<lambda>u. io_bind (io_call (download_video_single (direct_try env) video_url
                                       download_path None (sarg_format a) 3))
                             (\<lambda>ignored. io_return ()))
                 else io_return ())
          else io_return ())"

definition main_body_single :: "single_env \<Rightarrow> unit prog" where
  "main_body_single env =
     io_bind (\<lambda>s. (s, sparsed env))
       (\<lambda>a. io_bind (if truthy (sarg_url a) then io_return (str_opt (sarg_url a))
                      else io_input msg_ask_url)
          (\<lambda>video_url.
             io_bind (ask_path (\<not> truthy (sarg_url a)) (sarg_path a))
               (\<lambda>download_path.
                  io_bind (ask_proxy (\<not> truthy (sarg_url a)) (sarg_no_proxy a) (sarg_proxy a))
                    (\<lambda>proxy.
                       io_bind (\<lambda>s. (s\<lparr>out := out s @
                                   [Print (msg_cfg_url @ video_url),
                                    Print (msg_cfg_path @ download_path),
                                    Print (msg_cfg_proxy @ str_opt proxy)]\<rparr>, Inr ()))
                         (\<lambda>u. io_bind (choose_format env a video_url proxy)
                            (\<lambda>video_format.
                               io_bind (io_print (msg_cfg_format @ video_format))
                                 (\<lambda>v. download_with_fallback env a video_url download_path
                                         proxy video_format)))))))"

definition main_single :: "single_env \<Rightarrow> unit prog" where
  "main_single env = main_handlers (main_body_single env)"

section \<open>Notions the stated properties use\<close>

text \<open>
  The outcome \<open>batch_download\<close> is to record for the i-th task, in the words of the
  specification: the tuple the task returned with its URL in front, or a failure carrying
  the message of the exception it raised.
\<close>

definition outcome_of :: "(nat \<Rightarrow> exn + bool \<times> pystr \<times> pystr) \<Rightarrow> pystr list \<Rightarrow> nat \<Rightarrow> outcome" where
  "outcome_of result urls i =
     (case result i of
        Inr (success, title, error) \<Rightarrow> (urls ! i, success, title, error)
      | Inl e \<Rightarrow> (urls ! i, False, [], str_exn e))"

text \<open>A call that raised something no \<open>except Exception\<close> clause catches.\<close>

definition interrupted :: "exn + 'a \<Rightarrow> bool" where
  "interrupted r = (case r of Inl e \<Rightarrow> \<not> is_Exception e | Inr x \<Rightarrow> False)"

text \<open>The URLs of a file in the words of the specification, for rows and for lines.\<close>

definition spec_csv_urls :: "pystr list list \<Rightarrow> pystr list" where
  "spec_csv_urls rows = map (\<lambda>row. strip (hd row)) (filter (\<lambda>row. row \<noteq> [] \<and> strip (hd row) \<noteq> []) rows)"

definition spec_text_urls :: "pystr list \<Rightarrow> pystr list" where
  "spec_text_urls ls = filter (\<lambda>line. line \<noteq> [] \<and> \<not> startswith_hash line) (map strip ls)"

section \<open>Example worlds\<close>

definition env_third_time :: task_env where
  "env_third_time =
     \<lparr>dir = DirExists,
      fetch = (\<lambda>n. if n < 2 then Raises (DownloadError (ascii ''timed out''))
                    else Returns (Some [(ascii ''title'', ascii ''clip'')]))\<rparr>"

definition env_never :: task_env where
  "env_never = \<lparr>dir = DirMissing None, fetch = (\<lambda>n. Returns None)\<rparr>"

definition env_denied :: task_env where
  "env_denied =
     \<lparr>dir = DirMissing (Some (Exception (ascii ''Permission denied''))),
      fetch = (\<lambda>n. Returns None)\<rparr>"

definition env_exit :: task_env where
  "env_exit = \<lparr>dir = DirExists, fetch = (\<lambda>n. Raises (SystemExit 1))\<rparr>"

definition three_urls :: "pystr list" where
  "three_urls = [ascii ''urlA'', ascii ''urlB'', ascii ''urlC'']"

definition batch_mixed :: batch_env where
  "batch_mixed =
     \<lparr>task = (\<lambda>i. if i = 0 then env_third_time else if i = 1 then env_denied else env_never),
      completed = [Inr 1, Inr 2, Inr 0],
      report = None\<rparr>"

definition batch_exit :: batch_env where
  "batch_exit =
     \<lparr>task = (\<lambda>i. if i = 0 then env_exit else env_third_time),
      completed = [Inr 1, Inr 0, Inr 2],
      report = None\<rparr>"

definition batch_interrupted :: batch_env where
  "batch_interrupted =
     \<lparr>task = (\<lambda>i. env_third_time), completed = [Inr 0, Inl KeyboardInterrupt], report = None\<rparr>"

definition file_broken :: file_env where
  "file_broken =
     \<lparr>open_error = None,
      file_lines = [Inr (ascii ''urlA'' @ [10]), Inl (Exception (ascii ''invalid start byte'')),
                    Inr (ascii ''urlB'' @ [10])],
      csv_rows = [Inr [ascii ''urlA''], Inl (Exception (ascii ''invalid start byte'')),
                  Inr [ascii ''urlB'']]\<rparr>"

definition file_missing :: file_env where
  "file_missing =
     \<lparr>open_error = Some (Exception (ascii ''No such file or directory'')),
      file_lines = [], csv_rows = []\<rparr>"

definition file_tagged :: file_env where
  "file_tagged =
     \<lparr>open_error = None,
      file_lines = [Inr (ascii ''# list'' @ [10]), Inr [10], Inr (ascii ''  urlA '' @ [10]),
                    Inr (ascii ''#tag,x'' @ [10])],
      csv_rows = [Inr [ascii ''# list''], Inr [], Inr [ascii ''  urlA ''],
                  Inr [ascii ''#tag'', ascii ''x''], Inr [ascii '' '', ascii ''y'']]\<rparr>"

definition batch_args :: args where
  "batch_args =
     \<lparr>arg_file = None, arg_urls = Some three_urls, arg_path = ascii ''.'',
      arg_proxy = ascii ''http://127.0.0.1:2090'', arg_format = ascii ''best'',
      arg_no_proxy = True, arg_workers = 3, arg_retries = 3\<rparr>"

definition run_with_failures :: main_env where
  "run_with_failures = \<lparr>parsed = Inr batch_args, input_file = file_missing, batch = batch_mixed\<rparr>"

definition run_interrupted :: main_env where
  "run_interrupted =
     \<lparr>parsed = Inr batch_args, input_file = file_missing, batch = batch_interrupted\<rparr>"

definition run_zero_workers :: main_env where
  "run_zero_workers =
     \<lparr>parsed = Inr (batch_args\<lparr>arg_workers := 0\<rparr>), input_file = file_missing,
      batch = batch_mixed\<rparr>"

definition io0 :: io where
  "io0 = \<lparr>stdin = [], out = []\<rparr>"

section \<open>The retry loop\<close>

lemma fetch_fails_Failed: "fetch_fails r \<Longrightarrow> \<exists>msg. attempt_of r = Failed msg \<and> msg \<noteq> []"
  by (induction r rule: attempt_of.induct) (simp_all add: msg_no_info_def msg_download_error_def msg_error_def)

lemma fetch_calls_append [simp]: "fetch_calls (xs @ ys) = fetch_calls xs + fetch_calls ys"
  by (simp add: fetch_calls_def)

lemma total_wait_append [simp]: "total_wait (xs @ ys) = total_wait xs + total_wait ys"
  by (simp add: total_wait_def)

lemma fetch_calls_simps [simp]:
  "fetch_calls [] = 0"
  "fetch_calls (Fetch u opts # xs) = Suc (fetch_calls xs)"
  "fetch_calls (Print s # xs) = fetch_calls xs"
  "fetch_calls (Sleep n # xs) = fetch_calls xs"
  "fetch_calls (Makedirs d # xs) = fetch_calls xs"
  "fetch_calls (WriteRows d rs # xs) = fetch_calls xs"
  "fetch_calls (Input q # xs) = fetch_calls xs"
  "fetch_calls (Probe u px # xs) = fetch_calls xs"
  by (simp_all add: fetch_calls_def)

lemma total_wait_simps [simp]:
  "total_wait [] = 0"
  "total_wait (Fetch u opts # xs) = total_wait xs"
  "total_wait (Print s # xs) = total_wait xs"
  "total_wait (Sleep n # xs) = n + total_wait xs"
  "total_wait (Makedirs d # xs) = total_wait xs"
  "total_wait (WriteRows d rs # xs) = total_wait xs"
  "total_wait (Input q # xs) = total_wait xs"
  "total_wait (Probe u px # xs) = total_wait xs"
  by (simp_all add: total_wait_def)

lemma loop_stop:
  "\<not> retries < max_retries \<Longrightarrow>
   download_loop f opts p u max_retries retries err log =
     (log @ [Print (p @ msg_give_up)], Inr (False, [], err))"
  by (simp add: download_loop.simps)

lemma loop_success:
  "retries < max_retries \<Longrightarrow> attempt_of (f (fetch_calls log)) = Succeeded title \<Longrightarrow>
   download_loop f opts p u max_retries retries err log =
     (log @ [Print (p @ msg_trying @ u @ ascii ''...''), Fetch u opts, Print (p @ msg_done @ title)],
      Inr (True, title, []))"
  by (subst download_loop.simps) simp

lemma loop_failure:
  "retries < max_retries \<Longrightarrow> attempt_of (f (fetch_calls log)) = Failed msg \<Longrightarrow>
   download_loop f opts p u max_retries retries err log =
     download_loop f opts p u max_retries (retries + 1) msg
       (log @ [Print (p @ msg_trying @ u @ ascii ''...''), Fetch u opts, Print (p @ msg)]
          @ (if retries + 1 < max_retries
             then [Print (wait_line p (retries + 1) max_retries), Sleep (2 ^ nat (retries + 1))]
             else []))"
  by (subst download_loop.simps) (simp add: Let_def)

lemma loop_all_fail:
  "0 \<le> retries \<Longrightarrow> nat (max_retries - retries) = Suc m \<Longrightarrow>
   (\<forall>j\<le>m. fetch_fails (f (fetch_calls log + j))) \<Longrightarrow>
   \<exists>log' msg. download_loop f opts p u max_retries retries err log = (log', Inr (False, [], msg))
     \<and> attempt_of (f (fetch_calls log + m)) = Failed msg \<and> msg \<noteq> []
     \<and> fetch_calls log' = fetch_calls log + Suc m
     \<and> total_wait log' = total_wait log + (\<Sum>i = nat retries + 1..<nat max_retries. 2 ^ i)"
proof (induction m arbitrary: retries err log)
  case 0
  then have lt: "retries < max_retries" and nlt: "\<not> retries + 1 < max_retries" by auto
  from 0 have "fetch_fails (f (fetch_calls log))" by simp
  then obtain msg where msg: "attempt_of (f (fetch_calls log)) = Failed msg" "msg \<noteq> []"
    using fetch_fails_Failed by blast
  have e: "nat retries + 1 = nat max_retries" using 0 by auto
  show ?case
    using msg nlt e by (simp add: loop_failure [where f = f and log = log, OF lt msg(1)] loop_stop)
next
  case (Suc m)
  then have lt: "retries < max_retries" and lt2: "retries + 1 < max_retries" by auto
  from Suc.prems have "fetch_fails (f (fetch_calls log))" by (metis add_0_right le0)
  then obtain msg where msg: "attempt_of (f (fetch_calls log)) = Failed msg"
    using fetch_fails_Failed by blast
  let ?log = "log @ [Print (p @ msg_trying @ u @ ascii ''...''), Fetch u opts, Print (p @ msg),
      Print (wait_line p (retries + 1) max_retries), Sleep (2 ^ nat (retries + 1))]"
  have step: "download_loop f opts p u max_retries retries err log
      = download_loop f opts p u max_retries (retries + 1) msg ?log"
    using lt2 by (simp add: loop_failure [where f = f and log = log, OF lt msg])
  have c: "fetch_calls ?log = Suc (fetch_calls log)" by simp
  have w: "total_wait ?log = total_wait log + 2 ^ nat (retries + 1)" by simp
  have 1: "0 \<le> retries + 1" using Suc.prems by simp
  have 2: "nat (max_retries - (retries + 1)) = Suc m" using Suc.prems by auto
  have 3: "\<forall>j\<le>m. fetch_fails (f (fetch_calls ?log + j))"
    using Suc.prems(3) unfolding c by (metis Suc_le_mono add_Suc_shift)
  from Suc.IH [OF 1 2 3, of msg] obtain log' msg' where
    r: "download_loop f opts p u max_retries (retries + 1) msg ?log = (log', Inr (False, [], msg'))"
      "attempt_of (f (fetch_calls ?log + m)) = Failed msg'" "msg' \<noteq> []"
      "fetch_calls log' = fetch_calls ?log + Suc m"
      "total_wait log' = total_wait ?log + (\<Sum>i = nat (retries + 1) + 1..<nat max_retries. 2 ^ i)"
    by blast
  have n: "nat (retries + 1) = nat retries + 1" using Suc.prems by auto
  have lt3: "nat retries + 1 < nat max_retries" using Suc.prems lt2 by auto
  have s: "(\<Sum>i = nat retries + 1..<nat max_retries. (2::int) ^ i)
      = 2 ^ (nat retries + 1) + (\<Sum>i = nat retries + 1 + 1..<nat max_retries. 2 ^ i)"
    using lt3 by (simp add: sum.atLeast_Suc_lessThan)
  show ?case
    unfolding step using r unfolding c w n s by (auto simp: add.assoc)
qed

lemma loop_first_success:
  "0 \<le> retries \<Longrightarrow> retries + int m < max_retries \<Longrightarrow>
   (\<forall>j<m. fetch_fails (f (fetch_calls log + j))) \<Longrightarrow>
   attempt_of (f (fetch_calls log + m)) = Succeeded title \<Longrightarrow>
   \<exists>log'. download_loop f opts p u max_retries retries err log
       = (log' @ [Fetch u opts, Print (p @ msg_done @ title)], Inr (True, title, []))
     \<and> fetch_calls log' = fetch_calls log + m
     \<and> total_wait log' = total_wait log + (\<Sum>i = nat retries + 1..<nat retries + 1 + m. 2 ^ i)"
proof (induction m arbitrary: retries err log)
  case 0
  then have lt: "retries < max_retries" by simp
  from 0 have s: "attempt_of (f (fetch_calls log)) = Succeeded title" by simp
  show ?case
    unfolding loop_success [where f = f and log = log, OF lt s]
    by (rule exI [of _ "log @ [Print (p @ msg_trying @ u @ ascii ''...'')]"]) simp
next
  case (Suc m)
  then have lt: "retries < max_retries" and lt2: "retries + 1 < max_retries" by auto
  from Suc.prems have "fetch_fails (f (fetch_calls log))" by (metis add_0_right zero_less_Suc)
  then obtain msg where msg: "attempt_of (f (fetch_calls log)) = Failed msg"
    using fetch_fails_Failed by blast
  let ?log = "log @ [Print (p @ msg_trying @ u @ ascii ''...''), Fetch u opts, Print (p @ msg),
      Print (wait_line p (retries + 1) max_retries), Sleep (2 ^ nat (retries + 1))]"
  have step: "download_loop f opts p u max_retries retries err log
      = download_loop f opts p u max_retries (retries + 1) msg ?log"
    using lt2 by (simp add: loop_failure [where f = f and log = log, OF lt msg])
  have c: "fetch_calls ?log = Suc (fetch_calls log)" by simp
  have w: "total_wait ?log = total_wait log + 2 ^ nat (retries + 1)" by simp
  have 1: "0 \<le> retries + 1" using Suc.prems by simp
  have 2: "retries + 1 + int m < max_retries" using Suc.prems by simp
  have 3: "\<forall>j<m. fetch_fails (f (fetch_calls ?log + j))"
    using Suc.prems(3) unfolding c by (metis Suc_less_eq add_Suc_shift)
  have 4: "attempt_of (f (fetch_calls ?log + m)) = Succeeded title"
    using Suc.prems(4) unfolding c by simp
  from Suc.IH [OF 1 2 3 4, of msg] obtain log' where
    r: "download_loop f opts p u max_retries (retries + 1) msg ?log
          = (log' @ [Fetch u opts, Print (p @ msg_done @ title)], Inr (True, title, []))"
      "fetch_calls log' = fetch_calls ?log + m"
      "total_wait log' = total_wait ?log
         + (\<Sum>i = nat (retries + 1) + 1..<nat (retries + 1) + 1 + m. 2 ^ i)"
    by blast
  have n: "nat (retries + 1) = nat retries + 1" using Suc.prems by auto
  have s: "(\<Sum>i = nat retries + 1..<nat retries + 1 + Suc m. (2::int) ^ i)
      = 2 ^ (nat retries + 1) + (\<Sum>i = nat retries + 1 + 1..<nat retries + 1 + 1 + m. 2 ^ i)"
  proof -
    have "(\<Sum>i = nat retries + 1..<nat retries + 1 + Suc m. (2::int) ^ i)
        = 2 ^ (nat retries + 1) + (\<Sum>i = Suc (nat retries + 1)..<nat retries + 1 + Suc m. 2 ^ i)"
      by (rule sum.atLeast_Suc_lessThan) simp
    then show ?thesis by simp
  qed
  show ?case
    unfolding step using r unfolding c w n s by (auto simp: add.assoc)
qed

lemma single_loop_eq:
  "download_loop_single f opts u max_retries retries log
     = map_prod id (map_sum id fst) (download_loop f opts [] u max_retries retries err log)"
proof (induction f opts u max_retries retries log arbitrary: err
    rule: download_loop_single.induct)
  case (1 f opts u max_retries retries log)
  show ?case
  proof (cases "retries < max_retries")
    case False
    then show ?thesis
      by (simp add: download_loop.simps [of f opts "[]" u max_retries retries]
          download_loop_single.simps [of f opts u max_retries retries])
  next
    case True
    show ?thesis
    proof (cases "attempt_of (f (fetch_calls log))")
      case (Succeeded t)
      then show ?thesis using True
        by (simp add: download_loop.simps [of f opts "[]" u max_retries retries]
            download_loop_single.simps [of f opts u max_retries retries])
    next
      case (Escaped e)
      then show ?thesis using True
        by (simp add: download_loop.simps [of f opts "[]" u max_retries retries]
            download_loop_single.simps [of f opts u max_retries retries])
    next
      case (Failed msg)
      show ?thesis
      proof (cases "retries + 1 < max_retries")
        case t: True
        from "1.IH"(1) [OF True refl Failed refl t]
        show ?thesis using True Failed t
          by (simp add: download_loop.simps [of f opts "[]" u max_retries retries]
              download_loop_single.simps [of f opts u max_retries retries])
      next
        case f: False
        from "1.IH"(2) [OF True refl Failed refl f]
        show ?thesis using True Failed f
          by (simp add: download_loop.simps [of f opts "[]" u max_retries retries]
              download_loop_single.simps [of f opts u max_retries retries])
      qed
    qed
  qed
qed

lemma ensure_dir_ready:
  "dir_ready d \<Longrightarrow> snd (ensure_dir d output_path) = None
     \<and> fetch_calls (fst (ensure_dir d output_path)) = 0
     \<and> total_wait (fst (ensure_dir d output_path)) = 0"
  by (induction d rule: dir_ready.induct) (simp_all add: ensure_dir_def)

lemma download_video_ready:
  "dir_ready (dir env) \<Longrightarrow>
   download_video env url output_path proxy format max_retries index total_n =
     download_loop (fetch env) (make_opts output_path proxy format) (prefix_of index total_n)
       url max_retries 0 [] (fst (ensure_dir (dir env) output_path))"
  using ensure_dir_ready [of "dir env" output_path]
  by (cases "ensure_dir (dir env) output_path") (auto simp: download_video_def)

lemma download_video_single_eq:
  "download_video_single env url output_path proxy format max_retries =
     map_prod id (map_sum id fst)
       (download_video env url output_path proxy format max_retries None None)"
  by (simp add: download_video_single_def download_video_def prefix_of_def
      single_loop_eq [where err = "[]"] split: prod.splits option.splits)

lemma interval_shift: "{nat 0 + 1..<nat 0 + 1 + (k - 1)} = {1..k - 1}"
  by auto

lemma download_video_success_aux:
  assumes "dir_ready (dir env)" and "1 \<le> k" and "int k \<le> max_retries"
    and "\<forall>j<k - 1. fetch_fails (fetch env j)"
    and "fetch env (k - 1) = Returns (Some info)" and "info \<noteq> []"
  shows "\<exists>log. download_video env url output_path proxy format max_retries index total_n
           = (log @ [Fetch url (make_opts output_path proxy format),
                     Print (prefix_of index total_n @ msg_done @ get_title info)],
              Inr (True, get_title info, []))
         \<and> fetch_calls log = k - 1 \<and> total_wait log = (\<Sum>i = 1..k - 1. 2 ^ i)"
proof -
  let ?log0 = "fst (ensure_dir (dir env) output_path)"
  have c0: "fetch_calls ?log0 = 0" and w0: "total_wait ?log0 = 0"
    using ensure_dir_ready [OF assms(1)] by simp_all
  obtain kv rest where info: "info = kv # rest" using assms(6) by (cases info) auto
  have s: "attempt_of (fetch env (fetch_calls ?log0 + (k - 1))) = Succeeded (get_title info)"
    using assms(5) info c0 by simp
  have f: "\<forall>j<k - 1. fetch_fails (fetch env (fetch_calls ?log0 + j))"
    using assms(4) c0 by simp
  have b: "(0::int) + int (k - 1) < max_retries" using assms(2,3) by linarith
  have z: "(0::int) \<le> 0" by simp
  from loop_first_success [where f = "fetch env" and log = ?log0 and retries = 0 and m = "k - 1"
      and opts = "make_opts output_path proxy format" and p = "prefix_of index total_n"
      and u = url and err = "[]", OF z b f s]
  obtain log' where
    r: "download_loop (fetch env) (make_opts output_path proxy format) (prefix_of index total_n)
          url max_retries 0 [] ?log0
        = (log' @ [Fetch url (make_opts output_path proxy format),
                   Print (prefix_of index total_n @ msg_done @ get_title info)],
           Inr (True, get_title info, []))"
      "fetch_calls log' = fetch_calls ?log0 + (k - 1)"
      "total_wait log' = total_wait ?log0 + (\<Sum>i = nat 0 + 1..<nat 0 + 1 + (k - 1). 2 ^ i)"
    by blast
  have "total_wait log' = (\<Sum>i = 1..k - 1. 2 ^ i)"
    using r(3) w0 unfolding interval_shift by simp
  then show ?thesis
    using r(1,2) c0 unfolding download_video_ready [OF assms(1)] by auto
qed

text \<open>
  C2. If the fetch first succeeds on attempt \<open>k\<close>, with \<open>1 \<le> k \<le> max_retries\<close>, then
  \<open>download_video\<close> of either script calls \<open>extract_info\<close> exactly \<open>k\<close> times, does nothing
  after the k-th call but print the completion line, returns success (with the extracted
  title in the batch script), and has slept \<open>2 ^ i\<close> seconds after each failed attempt
  \<open>i\<close>, the sum of \<open>2 ^ i\<close> for \<open>i\<close> from 1 to \<open>k - 1\<close> in all.
\<close>

theorem download_video_first_success:
  assumes "dir_ready (dir env)" and "1 \<le> k" and "int k \<le> max_retries"
    and "\<forall>j<k - 1. fetch_fails (fetch env j)"
    and "fetch env (k - 1) = Returns (Some info)" and "info \<noteq> []"
  shows "(\<exists>log. download_video env url output_path proxy format max_retries index total_n
            = (log @ [Fetch url (make_opts output_path proxy format),
                      Print (prefix_of index total_n @ msg_done @ get_title info)],
               Inr (True, get_title info, []))
          \<and> fetch_calls log + 1 = k \<and> total_wait log = (\<Sum>i = 1..k - 1. 2 ^ i))
       \<and> (\<exists>log. download_video_single env url output_path proxy format max_retries
            = (log @ [Fetch url (make_opts output_path proxy format),
                      Print (msg_done @ get_title info)], Inr True)
          \<and> fetch_calls log + 1 = k \<and> total_wait log = (\<Sum>i = 1..k - 1. 2 ^ i))"
proof
  from download_video_success_aux [OF assms]
  show "\<exists>log. download_video env url output_path proxy format max_retries index total_n
            = (log @ [Fetch url (make_opts output_path proxy format),
                      Print (prefix_of index total_n @ msg_done @ get_title info)],
               Inr (True, get_title info, []))
          \<and> fetch_calls log + 1 = k \<and> total_wait log = (\<Sum>i = 1..k - 1. 2 ^ i)"
    using assms(2) by fastforce
next
  from download_video_success_aux [OF assms, of url output_path proxy format None None]
  obtain log where
    r: "download_video env url output_path proxy format max_retries None None
          = (log @ [Fetch url (make_opts output_path proxy format),
                    Print (prefix_of None None @ msg_done @ get_title info)],
             Inr (True, get_title info, []))"
      "fetch_calls log = k - 1" "total_wait log = (\<Sum>i = 1..k - 1. 2 ^ i)"
    by blast
  have "download_video_single env url output_path proxy format max_retries
      = (log @ [Fetch url (make_opts output_path proxy format),
                Print (msg_done @ get_title info)], Inr True)"
    unfolding download_video_single_eq r(1) by (simp add: prefix_of_def)
  then show "\<exists>log. download_video_single env url output_path proxy format max_retries
            = (log @ [Fetch url (make_opts output_path proxy format),
                      Print (msg_done @ get_title info)], Inr True)
          \<and> fetch_calls log + 1 = k \<and> total_wait log = (\<Sum>i = 1..k - 1. 2 ^ i)"
    using r(2,3) assms(2) by fastforce
qed


theorem download_video_first_success_witness:
  "dir_ready (dir env_third_time) \<and> (1::nat) \<le> 3 \<and> int 3 \<le> 3
   \<and> fetch_fails (fetch env_third_time 0) \<and> fetch_fails (fetch env_third_time 1)
   \<and> fetch env_third_time 2 = Returns (Some [(ascii ''title'', ascii ''clip'')])
   \<and> snd (download_video env_third_time (ascii ''urlA'') (ascii ''.'') None (ascii ''best'') 3
        (Some 1) (Some 3)) = Inr (True, ascii ''clip'', [])
   \<and> fetch_calls (fst (download_video env_third_time (ascii ''urlA'') (ascii ''.'') None
        (ascii ''best'') 3 (Some 1) (Some 3))) = 3
   \<and> total_wait (fst (download_video env_third_time (ascii ''urlA'') (ascii ''.'') None
        (ascii ''best'') 3 (Some 1) (Some 3))) = 2 + 4
   \<and> snd (download_video_single env_third_time (ascii ''urlA'') (ascii ''.'') None
        (ascii ''best'') 3) = Inr True"
proof -
  have d: "dir_ready (dir env_third_time)" by (simp add: env_third_time_def)
  have f: "\<forall>j<3 - 1. fetch_fails (fetch env_third_time j)" by (simp add: env_third_time_def)
  have s: "fetch env_third_time (3 - 1) = Returns (Some [(ascii ''title'', ascii ''clip'')])"
    by (simp add: env_third_time_def)
  have t: "get_title [(ascii ''title'', ascii ''clip'')] = ascii ''clip''"
    by (simp add: get_title_def)
  have w: "(\<Sum>i = 1..3 - 1. (2::int) ^ i) = 2 + 4"
  proof -
    have "{1..3 - 1::nat} = {1, 2}" by auto
    then show ?thesis by simp
  qed
  from download_video_first_success [where env = env_third_time and k = 3 and max_retries = 3
      and url = "ascii ''urlA''" and output_path = "ascii ''.''" and proxy = None
      and format = "ascii ''best''" and index = "Some 1" and total_n = "Some 3", OF d _ _ f s]
  show ?thesis
    using d f s unfolding t w by auto
qed

lemma download_video_dir_raises:
  "dir env = DirMissing (Some e) \<Longrightarrow>
   download_video env url output_path proxy format max_retries index total_n = ([], Inl e)"
  by (simp add: download_video_def ensure_dir_def)

text \<open>
  C9, as the code has it. With \<open>max_retries \<le> 0\<close> the loop body never runs:
  \<open>download_video\<close> makes no fetch call and sleeps not at all. When the output directory
  exists or can be created, it only prints the give-up line and returns \<open>(False, "", "")\<close>;
  when \<open>os.makedirs\<close> raises, at the head of the function and outside any \<open>try\<close>, it
  raises that exception instead of returning.
\<close>

theorem download_video_no_retries:
  assumes "max_retries \<le> 0"
  shows "fetch_calls (fst (download_video env url output_path proxy format max_retries
             index total_n)) = 0
       \<and> (\<forall>n. Sleep n \<notin> set (fst (download_video env url output_path proxy format max_retries
             index total_n)))
       \<and> (dir_ready (dir env)
            \<longrightarrow> download_video env url output_path proxy format max_retries index total_n
                  = (fst (ensure_dir (dir env) output_path)
                       @ [Print (prefix_of index total_n @ msg_give_up)],
                     Inr (False, [], [])))
       \<and> (\<forall>e. dir env = DirMissing (Some e)
            \<longrightarrow> download_video env url output_path proxy format max_retries index total_n
                  = ([], Inl e))"
proof -
  have n: "\<not> 0 < max_retries" using assms by simp
  have r: "download_video env url output_path proxy format max_retries index total_n
           = (fst (ensure_dir (dir env) output_path)
                @ [Print (prefix_of index total_n @ msg_give_up)], Inr (False, [], []))"
    if d: "dir_ready (dir env)"
    unfolding download_video_ready [OF d] by (rule loop_stop [OF n])
  have s: "\<forall>n. Sleep n \<notin> set (fst (ensure_dir (dir env) output_path))"
    if d: "dir_ready (dir env)"
    using d by (cases "dir env" rule: dir_ready.cases) (simp_all add: ensure_dir_def)
  show ?thesis
  proof (cases "dir_ready (dir env)")
    case True
    then have "\<forall>e. dir env \<noteq> DirMissing (Some e)" by auto
    then show ?thesis
      using r [OF True] ensure_dir_ready [OF True, of output_path] s [OF True] by simp
  next
    case False
    then obtain e where e: "dir env = DirMissing (Some e)"
      by (cases "dir env" rule: dir_ready.cases) auto
    show ?thesis
      using False e by (simp add: download_video_dir_raises [OF e])
  qed
qed

theorem download_video_no_retries_witness:
  "(- 1::int) \<le> 0 \<and> dir_ready (dir env_third_time)
   \<and> download_video env_third_time (ascii ''urlA'') (ascii ''.'') None (ascii ''best'') (- 1)
        None None = ([Print msg_give_up], Inr (False, [], []))
   \<and> dir env_denied = DirMissing (Some (Exception (ascii ''Permission denied'')))
   \<and> download_video env_denied (ascii ''urlB'') (ascii ''.'') None (ascii ''best'') (- 1)
        None None = ([], Inl (Exception (ascii ''Permission denied'')))"
proof -
  have m: "(- 1::int) \<le> 0" by simp
  have d: "dir_ready (dir env_third_time)" by (simp add: env_third_time_def)
  have x: "dir env_denied = DirMissing (Some (Exception (ascii ''Permission denied'')))"
    by (simp add: env_denied_def)
  from download_video_no_retries [OF m, of env_third_time "ascii ''urlA''" "ascii ''.''" None
      "ascii ''best''" None None]
  have 1: "download_video env_third_time (ascii ''urlA'') (ascii ''.'') None (ascii ''best'') (- 1)
        None None = ([Print msg_give_up], Inr (False, [], []))"
    using d by (simp add: env_third_time_def ensure_dir_def prefix_of_def)
  from download_video_no_retries [OF m, of env_denied "ascii ''urlB''" "ascii ''.''" None
      "ascii ''best''" None None]
  have 2: "download_video env_denied (ascii ''urlB'') (ascii ''.'') None (ascii ''best'') (- 1)
        None None = ([], Inl (Exception (ascii ''Permission denied'')))"
    using x by blast
  show ?thesis using m d x 1 2 by blast
qed

text \<open>
  C9 as stated fails when the output directory cannot be created: with \<open>max_retries = 0\<close>
  the call does not return \<open>(False, "", "")\<close> but raises what \<open>os.makedirs\<close> raised.
\<close>

theorem download_video_no_retries_raises:
  "download_video env_denied (ascii ''urlB'') [] None (ascii ''best'') 0 (Some 2) (Some 3)
     = ([], Inl (Exception (ascii ''Permission denied'')))"
  by (simp add: env_denied_def download_video_def ensure_dir_def)

text \<open>
  C3, as the code has it. With \<open>max_retries \<ge> 1\<close> and every attempt failing: when the
  output directory exists or can be created, \<open>download_video\<close> makes exactly \<open>max_retries\<close>
  fetch calls and then returns, without raising, \<open>(False, "", error)\<close> where \<open>error\<close> is
  the non-empty message recorded for the last attempt; when \<open>os.makedirs\<close> raises, it
  makes no fetch call and raises that exception.
\<close>

theorem download_video_all_fail:
  assumes "1 \<le> max_retries"
    and "\<forall>j<nat max_retries. fetch_fails (fetch env j)"
  shows "(dir_ready (dir env)
            \<longrightarrow> (\<exists>log err.
                   download_video env url output_path proxy format max_retries index total_n
                     = (log, Inr (False, [], err))
                   \<and> err \<noteq> [] \<and> attempt_of (fetch env (nat max_retries - 1)) = Failed err
                   \<and> int (fetch_calls log) = max_retries))
       \<and> (\<forall>e. dir env = DirMissing (Some e)
            \<longrightarrow> download_video env url output_path proxy format max_retries index total_n
                  = ([], Inl e))"
proof (intro conjI impI allI)
  assume d: "dir_ready (dir env)"
  let ?log0 = "fst (ensure_dir (dir env) output_path)"
  have c0: "fetch_calls ?log0 = 0"
    using ensure_dir_ready [OF d] by simp
  obtain m where m: "nat (max_retries - 0) = Suc m"
    using assms(1) by (cases "nat max_retries") auto
  have f: "\<forall>j\<le>m. fetch_fails (fetch env (fetch_calls ?log0 + j))"
    using assms(2) m c0 by simp
  have z: "(0::int) \<le> 0" by simp
  from loop_all_fail [where f = "fetch env" and log = ?log0 and retries = 0 and m = m
      and max_retries = max_retries and opts = "make_opts output_path proxy format"
      and p = "prefix_of index total_n" and u = url and err = "[]", OF z m f]
  obtain log' msg where
    r: "download_loop (fetch env) (make_opts output_path proxy format) (prefix_of index total_n)
          url max_retries 0 [] ?log0 = (log', Inr (False, [], msg))"
      "attempt_of (fetch env (fetch_calls ?log0 + m)) = Failed msg" "msg \<noteq> []"
      "fetch_calls log' = fetch_calls ?log0 + Suc m"
    by blast
  have "nat max_retries - 1 = m" using m by simp
  moreover have "int (Suc m) = max_retries" using m assms(1) by linarith
  ultimately show "\<exists>log err.
      download_video env url output_path proxy format max_retries index total_n
        = (log, Inr (False, [], err))
      \<and> err \<noteq> [] \<and> attempt_of (fetch env (nat max_retries - 1)) = Failed err
      \<and> int (fetch_calls log) = max_retries"
    using r c0 unfolding download_video_ready [OF d] by auto
next
  fix e assume "dir env = DirMissing (Some e)"
  then show "download_video env url output_path proxy format max_retries index total_n
      = ([], Inl e)"
    by (rule download_video_dir_raises)
qed

theorem download_video_all_fail_witness:
  "(1::int) \<le> 2
   \<and> fetch_fails (fetch env_never 0) \<and> fetch_fails (fetch env_never 1)
   \<and> dir_ready (dir env_never)
   \<and> snd (download_video env_never (ascii ''urlC'') (ascii ''out'') None (ascii ''best'') 2
        (Some 3) (Some 3)) = Inr (False, [], msg_no_info)
   \<and> fetch_calls (fst (download_video env_never (ascii ''urlC'') (ascii ''out'') None
        (ascii ''best'') 2 (Some 3) (Some 3))) = 2
   \<and> fetch_fails (fetch env_denied 0) \<and> fetch_fails (fetch env_denied 1)
   \<and> dir env_denied = DirMissing (Some (Exception (ascii ''Permission denied'')))
   \<and> download_video env_denied (ascii ''urlB'') (ascii ''out'') None (ascii ''best'') 2
        (Some 2) (Some 3) = ([], Inl (Exception (ascii ''Permission denied'')))"
proof -
  have d: "dir_ready (dir env_never)" by (simp add: env_never_def)
  have m: "(1::int) \<le> 2" by simp
  have f: "\<forall>j<nat 2. fetch_fails (fetch env_never j)" by (simp add: env_never_def)
  have g: "\<forall>j<nat 2. fetch_fails (fetch env_denied j)" by (simp add: env_denied_def)
  have a: "attempt_of (fetch env_never (nat 2 - 1)) = Failed msg_no_info"
    by (simp add: env_never_def)
  have x: "dir env_denied = DirMissing (Some (Exception (ascii ''Permission denied'')))"
    by (simp add: env_denied_def)
  from download_video_all_fail [OF m f, of "ascii ''urlC''" "ascii ''out''" None
      "ascii ''best''" "Some 3" "Some 3"]
  have 1: "snd (download_video env_never (ascii ''urlC'') (ascii ''out'') None (ascii ''best'') 2
        (Some 3) (Some 3)) = Inr (False, [], msg_no_info)
   \<and> fetch_calls (fst (download_video env_never (ascii ''urlC'') (ascii ''out'') None
        (ascii ''best'') 2 (Some 3) (Some 3))) = 2"
    using d a by auto
  from download_video_all_fail [OF m g, of "ascii ''urlB''" "ascii ''out''" None
      "ascii ''best''" "Some 2" "Some 3"]
  have 2: "download_video env_denied (ascii ''urlB'') (ascii ''out'') None (ascii ''best'') 2
        (Some 2) (Some 3) = ([], Inl (Exception (ascii ''Permission denied'')))"
    using x by blast
  show ?thesis
    using m d f g x 1 2 by simp
qed

text \<open>
  C3 as stated fails when \<open>max_retries = 0\<close>: a task in a world where every attempt would
  fail gets no attempt at all, and the error message returned is empty. It fails too when
  the output directory cannot be created: with \<open>max_retries = 3\<close> and a fetch that would
  fail every time, the call makes no fetch call and raises instead of returning.
\<close>

theorem download_video_zero_retries_empty_error:
  "fetch_fails (fetch env_never 0)
   \<and> download_video env_never (ascii ''urlC'') (ascii ''out'') None (ascii ''best'') 0
        (Some 3) (Some 3)
     = ([Makedirs (ascii ''out''), Print (msg_created_dir @ ascii ''out''),
         Print (prefix_of (Some 3) (Some 3) @ msg_give_up)], Inr (False, [], []))
   \<and> fetch_fails (fetch env_denied 0) \<and> fetch_fails (fetch env_denied 1)
   \<and> fetch_fails (fetch env_denied 2)
   \<and> download_video env_denied (ascii ''urlB'') [] None (ascii ''best'') 3 (Some 2) (Some 3)
     = ([], Inl (Exception (ascii ''Permission denied'')))"
  by (simp add: env_never_def env_denied_def download_video_def ensure_dir_def
      download_loop.simps)

section \<open>The batch orchestrator\<close>

lemma future_to_url_lookup:
  "i < length urls \<Longrightarrow> map_of (zip [0..<length urls] urls) i = Some (urls ! i)"
  using map_of_zip_nth [of "[0..<length urls]" urls i] by simp

lemma collect_outcomes:
  "\<forall>i\<in>set order. i < length urls \<Longrightarrow> \<forall>i\<in>set order. \<not> interrupted (result i) \<Longrightarrow>
   \<exists>log'. collect result (map_of (zip [0..<length urls] urls)) (map Inr order) log results
     = (log', Inr (results @ map (outcome_of result urls) order))"
proof (induction order arbitrary: log results)
  case Nil
  then show ?case by simp
next
  case (Cons i order)
  have i: "map_of (zip [0..<length urls] urls) i = Some (urls ! i)"
    using Cons.prems(1) by (simp add: future_to_url_lookup)
  have rest: "\<forall>i\<in>set order. i < length urls" "\<forall>i\<in>set order. \<not> interrupted (result i)"
    using Cons.prems by simp_all
  show ?case
  proof (cases "result i")
    case (Inr r)
    obtain success title error where r: "r = (success, title, error)" by (cases r) auto
    from Cons.IH [OF rest, of log "results @ [(urls ! i, success, title, error)]"]
    show ?thesis using i Inr r by (simp add: outcome_of_def)
  next
    case (Inl e)
    then have e: "is_Exception e" using Cons.prems(2) by (simp add: interrupted_def)
    from Cons.IH [OF rest, of "log @ [Print (msg_result_error @ str_exn e)]"
        "results @ [(urls ! i, False, [], str_exn e)]"]
    show ?thesis using i Inl e by (simp add: outcome_of_def)
  qed
qed


lemma save_results_returns:
  "\<forall>e. w = Some e \<longrightarrow> is_Exception e \<Longrightarrow> snd (save_results w results output_path) = None"
  by (cases w) (simp_all add: save_results_def Let_def)


lemma batch_download_returns:
  assumes "completed env = map Inr order" and "\<forall>i\<in>set order. i < length urls"
    and "0 < max_workers"
    and "\<forall>i\<in>set order. \<not> interrupted (snd (run_task env urls output_path proxy format max_retries i))"
    and "\<forall>e. report env = Some e \<longrightarrow> is_Exception e"
  shows "snd (batch_download env urls output_path proxy format max_workers max_retries)
    = Inr (map (outcome_of (\<lambda>i. snd (run_task env urls output_path proxy format max_retries i)) urls) order)"
proof -
  let ?result = "\<lambda>i. snd (run_task env urls output_path proxy format max_retries i)"
  let ?log0 = "[Print (msg_start @ str_int (int (length urls)) @ msg_videos)]"
  from collect_outcomes [where result = ?result and log = ?log0 and results = "[]",
      OF assms(2) assms(4)]
  obtain log1 where c: "collect ?result (map_of (zip [0..<length urls] urls)) (map Inr order)
      ?log0 [] = (log1, Inr (map (outcome_of ?result urls) order))" by auto
  have s: "snd (save_results (report env) (map (outcome_of ?result urls) order) output_path) = None"
    by (rule save_results_returns [OF assms(5)])
  then obtain log3 where s3: "save_results (report env) (map (outcome_of ?result urls) order)
      output_path = (log3, None)"
    by (cases "save_results (report env) (map (outcome_of ?result urls) order) output_path") auto
  show ?thesis
    using assms(3) c s3 assms(1) by (simp add: batch_download_def Let_def)
qed

lemma perm_indices:
  assumes "mset order = mset [0..<n]"
  shows "\<forall>i\<in>set order. i < n" and "length order = n"
    and "\<And>urls. mset (map ((!) urls) order) = mset (map ((!) urls) [0..<n])"
proof -
  have "set order = set [0..<n]" using assms by (rule mset_eq_setD)
  then show "\<forall>i\<in>set order. i < n" by simp
  show "length order = n" using assms by (metis length_upt mset_eq_length minus_nat.diff_0)
  fix urls :: "'a list"
  have "mset (map ((!) urls) order) = image_mset ((!) urls) (mset order)" by simp
  also have "\<dots> = image_mset ((!) urls) (mset [0..<n])" using assms by simp
  finally show "mset (map ((!) urls) order) = mset (map ((!) urls) [0..<n])" by simp
qed

lemma fst_outcome_of [simp]: "fst (outcome_of result urls i) = urls ! i"
  by (simp add: outcome_of_def split: sum.splits prod.splits)


lemma three_indices: "[0..<length three_urls] = [0, 1, 2]"
  by (simp add: three_urls_def upt_rec)

lemma below_three: "(\<forall>i<length three_urls. P i) \<longleftrightarrow> P 0 \<and> P 1 \<and> P 2"
proof
  assume "\<forall>i<length three_urls. P i"
  then show "P 0 \<and> P 1 \<and> P 2" by (simp add: three_urls_def)
next
  assume p: "P 0 \<and> P 1 \<and> P 2"
  show "\<forall>i<length three_urls. P i"
  proof (intro allI impI)
    fix i assume "i < length three_urls"
    then have "i = 0 \<or> i = 1 \<or> i = 2" by (auto simp: three_urls_def)
    then show "P i" using p by auto
  qed
qed

lemma list_of_three: "length xs = 3 \<Longrightarrow> xs = [xs ! 0, xs ! 1, xs ! 2]"
  by (auto simp: numeral_3_eq_3 length_Suc_conv)

lemma third_time_3:
  "snd (download_video env_third_time url output_path proxy format 3 index total_n)
     = Inr (True, ascii ''clip'', [])"
  by (simp add: env_third_time_def download_video_def ensure_dir_def download_loop.simps
      get_title_def)

lemma third_time_1:
  "snd (download_video env_third_time url output_path proxy format 1 index total_n)
     = Inr (False, [], msg_download_error @ ascii ''timed out'')"
  by (simp add: env_third_time_def download_video_def ensure_dir_def download_loop.simps)

lemma denied_any:
  "snd (download_video env_denied url output_path proxy format max_retries index total_n)
     = Inl (Exception (ascii ''Permission denied''))"
  by (simp add: env_denied_def download_video_def ensure_dir_def)

lemma never_3:
  "snd (download_video env_never url output_path proxy format 3 index total_n)
     = Inr (False, [], msg_no_info)"
  by (simp add: env_never_def download_video_def ensure_dir_def download_loop.simps)

lemma never_1:
  "snd (download_video env_never url output_path proxy format 1 index total_n)
     = Inr (False, [], msg_no_info)"
  by (simp add: env_never_def download_video_def ensure_dir_def download_loop.simps)

lemma exit_any:
  "0 < max_retries \<Longrightarrow>
   snd (download_video env_exit url output_path proxy format max_retries index total_n)
     = Inl (SystemExit 1)"
  by (simp add: env_exit_def download_video_def ensure_dir_def download_loop.simps)


text \<open>
  C4, as the code has it. When every task returns or raises an instance of \<open>Exception\<close>
  (which is what the clause \<open>except Exception\<close> catches), \<open>batch_download\<close> returns one
  outcome per task in completion order: for a task whose result raised \<open>e\<close> the outcome
  \<open>(url, False, "", str(e))\<close>, for every other task the tuple it returned behind its URL.
  So such a crash neither aborts the batch nor changes the number of outcomes.
\<close>

theorem batch_download_task_error_recorded:
  assumes "completed env = map Inr order" and "mset order = mset [0..<length urls]"
    and "0 < max_workers"
    and "\<forall>i<length urls.
           \<not> interrupted (snd (run_task env urls output_path proxy format max_retries i))"
    and "\<forall>e. report env = Some e \<longrightarrow> is_Exception e"
  shows "\<exists>results.
           snd (batch_download env urls output_path proxy format max_workers max_retries)
             = Inr results
           \<and> length results = length urls
           \<and> (\<forall>j<length order.
                 case snd (run_task env urls output_path proxy format max_retries (order ! j)) of
                   Inl e \<Rightarrow> results ! j = (urls ! (order ! j), False, [], str_exn e)
                 | Inr r \<Rightarrow> results ! j = (urls ! (order ! j), r))"
proof -
  let ?result = "\<lambda>i. snd (run_task env urls output_path proxy format max_retries i)"
  note p = perm_indices [OF assms(2)]
  have "\<forall>i\<in>set order. \<not> interrupted (?result i)"
    using p(1) assms(4) by blast
  from batch_download_returns [OF assms(1) p(1) assms(3) this assms(5)]
  have r: "snd (batch_download env urls output_path proxy format max_workers max_retries)
      = Inr (map (outcome_of ?result urls) order)" .
  have "\<forall>j<length order.
      case ?result (order ! j) of
        Inl e \<Rightarrow> map (outcome_of ?result urls) order ! j = (urls ! (order ! j), False, [], str_exn e)
      | Inr r \<Rightarrow> map (outcome_of ?result urls) order ! j = (urls ! (order ! j), r)"
    by (auto simp: outcome_of_def split: sum.splits)
  then show ?thesis
    using r p(2) by simp
qed

theorem batch_download_task_error_recorded_witness:
  "completed batch_mixed = map Inr [1, 2, 0] \<and> mset [1, 2, 0] = mset [0..<length three_urls]
   \<and> (0::int) < 2
   \<and> \<not> interrupted (snd (run_task batch_mixed three_urls (ascii ''out'') None (ascii ''best'') 1 0))
   \<and> \<not> interrupted (snd (run_task batch_mixed three_urls (ascii ''out'') None (ascii ''best'') 1 1))
   \<and> \<not> interrupted (snd (run_task batch_mixed three_urls (ascii ''out'') None (ascii ''best'') 1 2))
   \<and> report batch_mixed = None
   \<and> snd (run_task batch_mixed three_urls (ascii ''out'') None (ascii ''best'') 1 1)
       = Inl (Exception (ascii ''Permission denied''))
   \<and> snd (batch_download batch_mixed three_urls (ascii ''out'') None (ascii ''best'') 2 1)
       = Inr [(ascii ''urlB'', False, [], ascii ''Permission denied''),
              (ascii ''urlC'', False, [], msg_no_info),
              (ascii ''urlA'', False, [], msg_download_error @ ascii ''timed out'')]"
proof -
  have c: "completed batch_mixed = map Inr [1, 2, 0]" by (simp add: batch_mixed_def)
  have p: "mset [1, 2, 0] = mset [0..<length three_urls]" by (simp add: three_indices)
  have r: "\<forall>e. report batch_mixed = Some e \<longrightarrow> is_Exception e" by (simp add: batch_mixed_def)
  have w: "(0::int) < 2" by simp
  have t: "snd (run_task batch_mixed three_urls (ascii ''out'') None (ascii ''best'') 1 0)
        = Inr (False, [], msg_download_error @ ascii ''timed out'')"
    "snd (run_task batch_mixed three_urls (ascii ''out'') None (ascii ''best'') 1 1)
        = Inl (Exception (ascii ''Permission denied''))"
    "snd (run_task batch_mixed three_urls (ascii ''out'') None (ascii ''best'') 1 2)
        = Inr (False, [], msg_no_info)"
    by (simp_all add: run_task_def batch_mixed_def third_time_1 denied_any never_1)
  have i: "\<forall>i<length three_urls.
      \<not> interrupted (snd (run_task batch_mixed three_urls (ascii ''out'') None (ascii ''best'') 1 i))"
    unfolding below_three t by (simp add: interrupted_def)
  from batch_download_task_error_recorded [OF c p w i r] obtain results where
    b: "snd (batch_download batch_mixed three_urls (ascii ''out'') None (ascii ''best'') 2 1)
          = Inr results"
      "length results = length three_urls"
      "\<forall>j<length [1, 2, 0::nat].
         case snd (run_task batch_mixed three_urls (ascii ''out'') None (ascii ''best'') 1
                ([1, 2, 0] ! j)) of
           Inl e \<Rightarrow> results ! j = (three_urls ! ([1, 2, 0] ! j), False, [], str_exn e)
         | Inr r \<Rightarrow> results ! j = (three_urls ! ([1, 2, 0] ! j), r)"
    by blast
  have l: "length results = 3" using b(2) by (simp add: three_urls_def)
  have "results ! 0 = (ascii ''urlB'', False, [], ascii ''Permission denied'')"
    using b(3) [rule_format, of 0] t by (simp add: three_urls_def)
  moreover have "results ! 1 = (ascii ''urlC'', False, [], msg_no_info)"
    using b(3) [rule_format, of 1] t by (simp add: three_urls_def)
  moreover have "results ! 2 = (ascii ''urlA'', False, [], msg_download_error @ ascii ''timed out'')"
    using b(3) [rule_format, of 2] t by (simp add: three_urls_def)
  ultimately have "results = [(ascii ''urlB'', False, [], ascii ''Permission denied''),
      (ascii ''urlC'', False, [], msg_no_info),
      (ascii ''urlA'', False, [], msg_download_error @ ascii ''timed out'')]"
    using list_of_three [OF l] by simp
  then show ?thesis
    using b(1) c p t i unfolding below_three by (simp add: batch_mixed_def interrupted_def)
qed

text \<open>
  C4 as stated fails for an exception that is not an instance of \<open>Exception\<close>: the task
  for \<open>urlA\<close> raises \<open>SystemExit\<close> out of the fetcher, \<open>future.result()\<close> raises it again in
  the main thread, no clause catches it, and \<open>batch_download\<close> raises it instead of
  returning outcomes; the task for \<open>urlC\<close>, which completes later, gets none.
\<close>

theorem batch_download_system_exit_aborts:
  "snd (run_task batch_exit three_urls (ascii ''.'') None (ascii ''best'') 3 0) = Inl (SystemExit 1)
   \<and> snd (batch_download batch_exit three_urls (ascii ''.'') None (ascii ''best'') 3 3)
       = Inl (SystemExit 1)"
proof -
  have t: "snd (run_task batch_exit three_urls (ascii ''.'') None (ascii ''best'') 3 0)
        = Inl (SystemExit 1)"
    "snd (run_task batch_exit three_urls (ascii ''.'') None (ascii ''best'') 3 1)
        = Inr (True, ascii ''clip'', [])"
    by (simp_all add: run_task_def batch_exit_def exit_any third_time_3)
  show ?thesis
    using t by (simp add: batch_download_def Let_def batch_exit_def three_indices three_urls_def)
qed

section \<open>The URL source reader\<close>

lemma read_rows_fail:
  "read_rows (map Inr rows @ Inl e # rest) urls = (urls @ spec_csv_urls rows, Some e)"
proof (induction rows arbitrary: urls)
  case Nil
  then show ?case by (simp add: spec_csv_urls_def)
next
  case (Cons row rows)
  show ?case
    using Cons.IH [of urls] Cons.IH [of "urls @ [strip (hd row)]"]
    by (cases row) (simp_all add: spec_csv_urls_def)
qed

lemma read_rows_ok: "read_rows (map Inr rows) urls = (urls @ spec_csv_urls rows, None)"
proof (induction rows arbitrary: urls)
  case Nil
  then show ?case by (simp add: spec_csv_urls_def)
next
  case (Cons row rows)
  show ?case
    using Cons.IH [of urls] Cons.IH [of "urls @ [strip (hd row)]"]
    by (cases row) (simp_all add: spec_csv_urls_def)
qed

lemma read_lines_fail:
  "read_lines (map Inr ls @ Inl e # rest) urls = (urls @ spec_text_urls ls, Some e)"
proof (induction ls arbitrary: urls)
  case Nil
  then show ?case by (simp add: spec_text_urls_def)
next
  case (Cons line ls)
  show ?case
    using Cons.IH [of urls] Cons.IH [of "urls @ [strip line]"]
    by (simp add: spec_text_urls_def Let_def)
qed

lemma read_lines_ok: "read_lines (map Inr ls) urls = (urls @ spec_text_urls ls, None)"
proof (induction ls arbitrary: urls)
  case Nil
  then show ?case by (simp add: spec_text_urls_def)
next
  case (Cons line ls)
  show ?case
    using Cons.IH [of urls] Cons.IH [of "urls @ [strip line]"]
    by (simp add: spec_text_urls_def Let_def)
qed

lemma ext_examples:
  "lower (snd (splitext (ascii ''list.CSV''))) = ascii ''.csv''"
  "lower (snd (splitext (ascii ''in/urls.csv''))) = ascii ''.csv''"
  "lower (snd (splitext (ascii ''urls.txt''))) \<noteq> ascii ''.csv''"
  "lower (snd (splitext (ascii ''v1.2/urls''))) \<noteq> ascii ''.csv''"
  by (simp_all add: splitext_def rfind_def lower_def ascii_def upt_rec Let_def)

lemma strip_examples:
  "strip (ascii ''# list'') = ascii ''# list''"
  "strip (ascii ''  urlA '') = ascii ''urlA''"
  "strip (ascii ''#tag'') = ascii ''#tag''"
  "strip (ascii '' '') = []"
  "strip (ascii ''urlA'') = ascii ''urlA''"
  "strip (ascii ''urlA'' @ [10]) = ascii ''urlA''"
  "strip (ascii ''# list'' @ [10]) = ascii ''# list''"
  "strip [10] = []"
  "strip (ascii ''  urlA '' @ [10]) = ascii ''urlA''"
  "strip (ascii ''#tag,x'' @ [10]) = ascii ''#tag,x''"
  by (simp_all add: strip_def isspace_def ascii_def)

text \<open>
  C7. For a file that opens and reads without failure, \<open>read_urls_from_file\<close> prints
  nothing and returns, in file order: when the lowered extension of the path is \<open>.csv\<close>,
  the stripped first column of every row that has a first column which is not empty once
  stripped; otherwise every stripped line that is not empty and does not start with \<open>#\<close>.
\<close>

theorem read_urls_from_file_readable:
  assumes "open_error f = None"
  shows "(lower (snd (splitext file_path)) = ascii ''.csv'' \<longrightarrow> csv_rows f = map Inr rows
            \<longrightarrow> read_urls_from_file f file_path = ([], Inr (spec_csv_urls rows)))
       \<and> (lower (snd (splitext file_path)) \<noteq> ascii ''.csv'' \<longrightarrow> file_lines f = map Inr ls
            \<longrightarrow> read_urls_from_file f file_path = ([], Inr (spec_text_urls ls)))"
  using assms by (simp add: read_urls_from_file_def Let_def read_rows_ok read_lines_ok)

theorem read_urls_from_file_readable_witness:
  "open_error file_tagged = None
   \<and> lower (snd (splitext (ascii ''list.CSV''))) = ascii ''.csv''
   \<and> lower (snd (splitext (ascii ''urls.txt''))) \<noteq> ascii ''.csv''
   \<and> read_urls_from_file file_tagged (ascii ''list.CSV'')
       = ([], Inr [ascii ''# list'', ascii ''urlA'', ascii ''#tag''])
   \<and> read_urls_from_file file_tagged (ascii ''urls.txt'') = ([], Inr [ascii ''urlA''])"
proof -
  have o: "open_error file_tagged = None" by (simp add: file_tagged_def)
  have r: "csv_rows file_tagged = map Inr [[ascii ''# list''], [], [ascii ''  urlA ''],
      [ascii ''#tag'', ascii ''x''], [ascii '' '', ascii ''y'']]"
    by (simp add: file_tagged_def)
  have l: "file_lines file_tagged = map Inr [ascii ''# list'' @ [10], [10],
      ascii ''  urlA '' @ [10], ascii ''#tag,x'' @ [10]]"
    by (simp add: file_tagged_def)
  have c: "spec_csv_urls [[ascii ''# list''], [], [ascii ''  urlA ''],
      [ascii ''#tag'', ascii ''x''], [ascii '' '', ascii ''y'']]
      = [ascii ''# list'', ascii ''urlA'', ascii ''#tag'']"
    by (simp add: spec_csv_urls_def strip_examples) (simp add: ascii_def)
  have t: "spec_text_urls [ascii ''# list'' @ [10], [10], ascii ''  urlA '' @ [10],
      ascii ''#tag,x'' @ [10]] = [ascii ''urlA'']"
    by (simp add: spec_text_urls_def strip_examples) (simp add: ascii_def)
  from read_urls_from_file_readable [OF o, where file_path = "ascii ''list.CSV''"
      and rows = "[[ascii ''# list''], [], [ascii ''  urlA ''], [ascii ''#tag'', ascii ''x''],
        [ascii '' '', ascii ''y'']]"]
    read_urls_from_file_readable [OF o, where file_path = "ascii ''urls.txt''"
      and ls = "[ascii ''# list'' @ [10], [10], ascii ''  urlA '' @ [10],
        ascii ''#tag,x'' @ [10]]"]
  show ?thesis
    using o r l ext_examples by (simp add: c t)
qed


lemma spec_text_urls_no_hash: "u \<in> set (spec_text_urls ls) \<Longrightarrow> \<not> startswith_hash u"
  by (auto simp: spec_text_urls_def)

lemma spec_csv_urls_member:
  "c # cs \<in> set rows \<Longrightarrow> strip c \<noteq> [] \<Longrightarrow> strip c \<in> set (spec_csv_urls rows)"
  by (force simp: spec_csv_urls_def)

text \<open>
  C10. In CSV mode \<open>#\<close> is no comment marker: a row whose first column is not empty once
  stripped is returned even when that column starts with \<open>#\<close>. Only for a path whose
  extension is not \<open>.csv\<close> does no returned URL start with \<open>#\<close>.
\<close>

theorem read_urls_csv_keeps_hash:
  assumes "open_error f = None"
  shows "(lower (snd (splitext file_path)) = ascii ''.csv'' \<longrightarrow> csv_rows f = map Inr rows
            \<longrightarrow> c # cs \<in> set rows \<longrightarrow> strip c \<noteq> [] \<longrightarrow> startswith_hash (strip c)
            \<longrightarrow> (\<exists>urls. read_urls_from_file f file_path = ([], Inr urls) \<and> strip c \<in> set urls))
       \<and> (lower (snd (splitext file_path)) \<noteq> ascii ''.csv'' \<longrightarrow> file_lines f = map Inr ls
            \<longrightarrow> (\<exists>urls. read_urls_from_file f file_path = ([], Inr urls)
                   \<and> (\<forall>u\<in>set urls. \<not> startswith_hash u)))"
  using assms
  by (simp add: read_urls_from_file_def Let_def read_rows_ok read_lines_ok
      spec_text_urls_no_hash spec_csv_urls_member)

theorem read_urls_csv_keeps_hash_witness:
  "open_error file_tagged = None
   \<and> lower (snd (splitext (ascii ''in/urls.csv''))) = ascii ''.csv''
   \<and> [ascii ''#tag'', ascii ''x''] \<in> set [[ascii ''# list''], [], [ascii ''  urlA ''],
        [ascii ''#tag'', ascii ''x''], [ascii '' '', ascii ''y'']]
   \<and> strip (ascii ''#tag'') \<noteq> [] \<and> startswith_hash (strip (ascii ''#tag''))
   \<and> (\<exists>urls. read_urls_from_file file_tagged (ascii ''in/urls.csv'') = ([], Inr urls)
         \<and> ascii ''#tag'' \<in> set urls)
   \<and> lower (snd (splitext (ascii ''v1.2/urls''))) \<noteq> ascii ''.csv''
   \<and> (\<exists>urls. read_urls_from_file file_tagged (ascii ''v1.2/urls'') = ([], Inr urls)
         \<and> ascii ''#tag,x'' \<notin> set urls)"
proof -
  have o: "open_error file_tagged = None" by (simp add: file_tagged_def)
  have r: "csv_rows file_tagged = map Inr [[ascii ''# list''], [], [ascii ''  urlA ''],
      [ascii ''#tag'', ascii ''x''], [ascii '' '', ascii ''y'']]"
    by (simp add: file_tagged_def)
  have l: "file_lines file_tagged = map Inr [ascii ''# list'' @ [10], [10],
      ascii ''  urlA '' @ [10], ascii ''#tag,x'' @ [10]]"
    by (simp add: file_tagged_def)
  have m: "[ascii ''#tag'', ascii ''x''] \<in> set [[ascii ''# list''], [], [ascii ''  urlA ''],
        [ascii ''#tag'', ascii ''x''], [ascii '' '', ascii ''y'']]"
    by simp
  have s: "strip (ascii ''#tag'') \<noteq> []" "startswith_hash (strip (ascii ''#tag''))"
    "startswith_hash (ascii ''#tag,x'')"
    by (simp_all add: strip_examples) (simp_all add: ascii_def)
  note k = read_urls_csv_keeps_hash [OF o, where file_path = "ascii ''in/urls.csv''"
      and c = "ascii ''#tag''" and cs = "[ascii ''x'']"
      and rows = "[[ascii ''# list''], [], [ascii ''  urlA ''], [ascii ''#tag'', ascii ''x''],
        [ascii '' '', ascii ''y'']]"]
  have a: "\<exists>urls. read_urls_from_file file_tagged (ascii ''in/urls.csv'') = ([], Inr urls)
      \<and> ascii ''#tag'' \<in> set urls"
    using k ext_examples(2) r m s(1,2) by (simp add: strip_examples)
  note t = read_urls_csv_keeps_hash [OF o, where file_path = "ascii ''v1.2/urls''"
      and ls = "[ascii ''# list'' @ [10], [10], ascii ''  urlA '' @ [10],
        ascii ''#tag,x'' @ [10]]"]
  have b: "\<exists>urls. read_urls_from_file file_tagged (ascii ''v1.2/urls'') = ([], Inr urls)
      \<and> ascii ''#tag,x'' \<notin> set urls"
    using t ext_examples(4) l s(3) by auto
  show ?thesis
    using o ext_examples(2,4) m s(1,2) a b by blast
qed

text \<open>
  C6, as the code has it. When opening or reading raises an instance of \<open>Exception\<close>,
  \<open>read_urls_from_file\<close> prints the error and returns, without raising, the URLs it had
  appended before the failure: none when \<open>open\<close> fails, otherwise those of the rows or
  lines that were read before the point of failure.
\<close>

theorem read_urls_from_file_failure:
  assumes "is_Exception e"
  shows "(open_error f = Some e
            \<longrightarrow> read_urls_from_file f file_path = ([Print (msg_read_error @ str_exn e)], Inr []))
       \<and> (open_error f = None \<longrightarrow> lower (snd (splitext file_path)) = ascii ''.csv''
            \<longrightarrow> csv_rows f = map Inr rows @ Inl e # rest
            \<longrightarrow> read_urls_from_file f file_path
                  = ([Print (msg_read_error @ str_exn e)], Inr (spec_csv_urls rows)))
       \<and> (open_error f = None \<longrightarrow> lower (snd (splitext file_path)) \<noteq> ascii ''.csv''
            \<longrightarrow> file_lines f = map Inr ls @ Inl e # rest'
            \<longrightarrow> read_urls_from_file f file_path
                  = ([Print (msg_read_error @ str_exn e)], Inr (spec_text_urls ls)))"
  using assms by (simp add: read_urls_from_file_def Let_def read_rows_fail read_lines_fail)

theorem read_urls_from_file_failure_witness:
  "is_Exception (Exception (ascii ''No such file or directory''))
   \<and> open_error file_missing = Some (Exception (ascii ''No such file or directory''))
   \<and> read_urls_from_file file_missing (ascii ''urls.txt'')
       = ([Print (msg_read_error @ ascii ''No such file or directory'')], Inr [])
   \<and> is_Exception (Exception (ascii ''invalid start byte''))
   \<and> open_error file_broken = None
   \<and> lower (snd (splitext (ascii ''list.CSV''))) = ascii ''.csv''
   \<and> read_urls_from_file file_broken (ascii ''list.CSV'')
       = ([Print (msg_read_error @ ascii ''invalid start byte'')], Inr [ascii ''urlA''])"
proof -
  have e: "is_Exception (Exception (ascii ''No such file or directory''))"
    "is_Exception (Exception (ascii ''invalid start byte''))" by simp_all
  have o: "open_error file_missing = Some (Exception (ascii ''No such file or directory''))"
    "open_error file_broken = None"
    by (simp_all add: file_missing_def file_broken_def)
  have r: "csv_rows file_broken = map Inr [[ascii ''urlA'']]
      @ Inl (Exception (ascii ''invalid start byte'')) # [Inr [ascii ''urlB'']]"
    by (simp add: file_broken_def)
  have c: "spec_csv_urls [[ascii ''urlA'']] = [ascii ''urlA'']"
    by (simp add: spec_csv_urls_def strip_examples) (simp add: ascii_def)
  from read_urls_from_file_failure [OF e(1), where f = file_missing
      and file_path = "ascii ''urls.txt''"]
    read_urls_from_file_failure [OF e(2), where f = file_broken
      and file_path = "ascii ''list.CSV''" and rows = "[[ascii ''urlA'']]"
      and rest = "[Inr [ascii ''urlB'']]"]
  show ?thesis
    using e o r ext_examples(1) by (simp add: c)
qed

text \<open>
  C6 as stated fails when the failure comes after a URL has been read: the second line
  of the file cannot be decoded, and the URL of the first line is returned.
\<close>

theorem read_urls_from_file_partial:
  "read_urls_from_file file_broken (ascii ''urls.txt'')
     = ([Print (msg_read_error @ ascii ''invalid start byte'')], Inr [ascii ''urlA''])"
  using ext_examples(3)
  by (simp add: read_urls_from_file_def Let_def file_broken_def strip_examples)
    (simp add: ascii_def)

section \<open>Exit status\<close>

lemma main_handlers_status:
  "exit_status (snd (main_handlers body s))
     = (case snd (body s) of
          Inr u \<Rightarrow> 0
        | Inl KeyboardInterrupt \<Rightarrow> 0
        | Inl (SystemExit c) \<Rightarrow> c
        | Inl (DownloadError m) \<Rightarrow> 1
        | Inl (Exception m) \<Rightarrow> 1)"
  by (cases "body s") (auto simp: main_handlers_def split: sum.splits exn.splits)

lemma start_batch_result:
  "snd (start_batch env a urls download_path proxy s)
     = map_sum id (\<lambda>results. ())
         (snd (batch_download (batch env) urls download_path proxy (arg_format a)
                (arg_workers a) (arg_retries a)))"
  by (cases "snd (batch_download (batch env) urls download_path proxy (arg_format a)
        (arg_workers a) (arg_retries a))")
    (simp_all add: start_batch_def io_bind_def io_call_def io_return_def)

lemma main_body_from_args:
  assumes "parsed env = Inr a" and "\<not> truthy (arg_file a)" and "arg_urls a = Some (u # us)"
  shows "snd (main_body env s)
     = map_sum id (\<lambda>results. ())
         (snd (batch_download (batch env) (u # us) (arg_path a)
                (if arg_no_proxy a then None else Some (arg_proxy a)) (arg_format a)
                (arg_workers a) (arg_retries a)))"
proof -
  have i: "\<not> is_interactive a"
    using assms(2,3) by (simp add: is_interactive_def)
  have "\<exists>s'. get_urls env a s = (s', Inr (u # us))"
    using assms(2,3) by (simp add: get_urls_def io_bind_def io_print_def io_return_def)
  then obtain s' where g: "get_urls env a s = (s', Inr (u # us))" by blast
  show ?thesis
    using assms(1) g i
    by (simp add: main_body_def io_bind_def ask_path_def ask_proxy_def print_config_def
        io_return_def start_batch_result)
qed

lemma run_with_failures_batch:
  "snd (batch_download batch_mixed three_urls (ascii ''.'') None (ascii ''best'') 3 3)
     = Inr [(ascii ''urlB'', False, [], ascii ''Permission denied''),
            (ascii ''urlC'', False, [], msg_no_info),
            (ascii ''urlA'', True, ascii ''clip'', [])]"
proof -
  have c: "completed batch_mixed = map Inr [1, 2, 0]" by (simp add: batch_mixed_def)
  have r: "\<forall>e. report batch_mixed = Some e \<longrightarrow> is_Exception e" by (simp add: batch_mixed_def)
  have t: "snd (run_task batch_mixed three_urls (ascii ''.'') None (ascii ''best'') 3 0)
        = Inr (True, ascii ''clip'', [])"
    "snd (run_task batch_mixed three_urls (ascii ''.'') None (ascii ''best'') 3 1)
        = Inl (Exception (ascii ''Permission denied''))"
    "snd (run_task batch_mixed three_urls (ascii ''.'') None (ascii ''best'') 3 2)
        = Inr (False, [], msg_no_info)"
    by (simp_all add: run_task_def batch_mixed_def third_time_3 denied_any never_3)
  have i: "\<forall>i\<in>set [1, 2, 0].
      \<not> interrupted (snd (run_task batch_mixed three_urls (ascii ''.'') None (ascii ''best'') 3 i))"
    using t by (simp add: interrupted_def)
  have b: "\<forall>i\<in>set [1, 2, 0::nat]. i < length three_urls" by (simp add: three_urls_def)
  have w: "(0::int) < 3" by simp
  show ?thesis
    unfolding batch_download_returns [OF c b w i r]
    using t by (simp add: outcome_of_def three_urls_def)
qed

lemma run_interrupted_batch:
  "snd (batch_download batch_interrupted three_urls (ascii ''.'') None (ascii ''best'') 3 3)
     = Inl KeyboardInterrupt"
proof -
  have t: "snd (run_task batch_interrupted three_urls (ascii ''.'') None (ascii ''best'') 3 0)
        = Inr (True, ascii ''clip'', [])"
    by (simp add: run_task_def batch_interrupted_def third_time_3)
  show ?thesis
    using t
    by (simp add: batch_download_def Let_def batch_interrupted_def three_indices three_urls_def)
qed

lemma example_args:
  "parsed run_with_failures = Inr batch_args" "parsed run_interrupted = Inr batch_args"
  "parsed run_zero_workers = Inr (batch_args\<lparr>arg_workers := 0\<rparr>)"
  "\<not> truthy (arg_file batch_args)" "\<not> truthy (arg_file (batch_args\<lparr>arg_workers := 0\<rparr>))"
  "arg_urls batch_args = Some (ascii ''urlA'' # [ascii ''urlB'', ascii ''urlC''])"
  "arg_urls (batch_args\<lparr>arg_workers := 0\<rparr>)
     = Some (ascii ''urlA'' # [ascii ''urlB'', ascii ''urlC''])"
  "ascii ''urlA'' # [ascii ''urlB'', ascii ''urlC''] = three_urls"
  by (simp_all add: run_with_failures_def run_interrupted_def run_zero_workers_def
      batch_args_def truthy_def three_urls_def)

lemma example_bodies:
  "snd (main_body run_with_failures io0) = Inr ()"
  "snd (main_body run_interrupted io0) = Inl KeyboardInterrupt"
  "snd (main_body run_zero_workers io0)
     = Inl (Exception (ascii ''max_workers must be greater than 0''))"
proof -
  show "snd (main_body run_with_failures io0) = Inr ()"
    unfolding main_body_from_args [OF example_args(1,4,6)] example_args(8)
    by (simp add: batch_args_def run_with_failures_def run_with_failures_batch)
  show "snd (main_body run_interrupted io0) = Inl KeyboardInterrupt"
    unfolding main_body_from_args [OF example_args(2,4,6)] example_args(8)
    by (simp add: batch_args_def run_interrupted_def run_interrupted_batch)
  show "snd (main_body run_zero_workers io0)
     = Inl (Exception (ascii ''max_workers must be greater than 0''))"
    unfolding main_body_from_args [OF example_args(3,5,7)]
    by (simp add: batch_args_def batch_download_def Let_def)
qed

text \<open>
  C8, as the code has it. In both scripts a \<open>KeyboardInterrupt\<close> out of the body of
  \<open>main\<close> gives exit status 0, an instance of \<open>Exception\<close> gives exit status 1, and a body
  that completes gives exit status 0 (a \<open>SystemExit\<close>, as \<open>argparse\<close> raises, keeps its
  own code). And a run of the batch script on URLs of the command line exits with status 0
  whenever \<open>batch_download\<close> returns, whatever outcomes it returns.
\<close>

theorem main_exit_status:
  "exit_status (snd (main env s))
     = (case snd (main_body env s) of
          Inr u \<Rightarrow> 0
        | Inl KeyboardInterrupt \<Rightarrow> 0
        | Inl (SystemExit c) \<Rightarrow> c
        | Inl (DownloadError m) \<Rightarrow> 1
        | Inl (Exception m) \<Rightarrow> 1)
   \<and> exit_status (snd (main_single env' s))
     = (case snd (main_body_single env' s) of
          Inr u \<Rightarrow> 0
        | Inl KeyboardInterrupt \<Rightarrow> 0
        | Inl (SystemExit c) \<Rightarrow> c
        | Inl (DownloadError m) \<Rightarrow> 1
        | Inl (Exception m) \<Rightarrow> 1)
   \<and> (parsed env = Inr a \<and> \<not> truthy (arg_file a) \<and> arg_urls a = Some (url # urls)
        \<and> snd (batch_download (batch env) (url # urls) (arg_path a)
                 (if arg_no_proxy a then None else Some (arg_proxy a)) (arg_format a)
                 (arg_workers a) (arg_retries a)) = Inr results
      \<longrightarrow> exit_status (snd (main env s)) = 0)"
proof (intro conjI impI)
  show "exit_status (snd (main env s))
     = (case snd (main_body env s) of
          Inr u \<Rightarrow> 0
        | Inl KeyboardInterrupt \<Rightarrow> 0
        | Inl (SystemExit c) \<Rightarrow> c
        | Inl (DownloadError m) \<Rightarrow> 1
        | Inl (Exception m) \<Rightarrow> 1)"
    by (simp add: main_def main_handlers_status)
  show "exit_status (snd (main_single env' s))
     = (case snd (main_body_single env' s) of
          Inr u \<Rightarrow> 0
        | Inl KeyboardInterrupt \<Rightarrow> 0
        | Inl (SystemExit c) \<Rightarrow> c
        | Inl (DownloadError m) \<Rightarrow> 1
        | Inl (Exception m) \<Rightarrow> 1)"
    by (simp add: main_single_def main_handlers_status)
  assume h: "parsed env = Inr a \<and> \<not> truthy (arg_file a) \<and> arg_urls a = Some (url # urls)
        \<and> snd (batch_download (batch env) (url # urls) (arg_path a)
                 (if arg_no_proxy a then None else Some (arg_proxy a)) (arg_format a)
                 (arg_workers a) (arg_retries a)) = Inr results"
  then have "snd (main_body env s) = Inr ()"
    using main_body_from_args [of env a url urls s] by simp
  then show "exit_status (snd (main env s)) = 0"
    by (simp add: main_def main_handlers_status)
qed

theorem main_exit_status_witness:
  "parsed run_with_failures = Inr batch_args \<and> \<not> truthy (arg_file batch_args)
   \<and> arg_urls batch_args = Some (ascii ''urlA'' # [ascii ''urlB'', ascii ''urlC''])
   \<and> snd (batch_download (batch run_with_failures)
            (ascii ''urlA'' # [ascii ''urlB'', ascii ''urlC'']) (arg_path batch_args)
            (if arg_no_proxy batch_args then None else Some (arg_proxy batch_args))
            (arg_format batch_args) (arg_workers batch_args) (arg_retries batch_args))
       = Inr [(ascii ''urlB'', False, [], ascii ''Permission denied''),
              (ascii ''urlC'', False, [], msg_no_info),
              (ascii ''urlA'', True, ascii ''clip'', [])]
   \<and> exit_status (snd (main run_with_failures io0)) = 0
   \<and> snd (main_body run_interrupted io0) = Inl KeyboardInterrupt
   \<and> exit_status (snd (main run_interrupted io0)) = 0
   \<and> snd (main_body run_zero_workers io0)
       = Inl (Exception (ascii ''max_workers must be greater than 0''))
   \<and> exit_status (snd (main run_zero_workers io0)) = 1"
proof -
  have b: "snd (batch_download (batch run_with_failures)
            (ascii ''urlA'' # [ascii ''urlB'', ascii ''urlC'']) (arg_path batch_args)
            (if arg_no_proxy batch_args then None else Some (arg_proxy batch_args))
            (arg_format batch_args) (arg_workers batch_args) (arg_retries batch_args))
       = Inr [(ascii ''urlB'', False, [], ascii ''Permission denied''),
              (ascii ''urlC'', False, [], msg_no_info),
              (ascii ''urlA'', True, ascii ''clip'', [])]"
    unfolding example_args(8)
    by (simp add: batch_args_def run_with_failures_def run_with_failures_batch)
  have 1: "exit_status (snd (main run_with_failures io0)) = 0"
    using main_exit_status [of run_with_failures io0 _ batch_args "ascii ''urlA''"
        "[ascii ''urlB'', ascii ''urlC'']"] example_args(1,4,6) b
    by blast
  have 2: "exit_status (snd (main run_interrupted io0)) = 0"
    using main_exit_status [of run_interrupted io0] by (simp add: example_bodies)
  have 3: "exit_status (snd (main run_zero_workers io0)) = 1"
    using main_exit_status [of run_zero_workers io0] by (simp add: example_bodies)
  show ?thesis
    using example_args(1,4,6) b 1 2 3 example_bodies(2,3) by blast
qed

text \<open>
  C8 as stated fails on the dedicated exit code: a run interrupted while it waits for the
  downloads and a run that completes (with two of its three downloads failed) end with
  the same exit status, 0.
\<close>

theorem interrupt_status_not_dedicated:
  "snd (main_body run_interrupted io0) = Inl KeyboardInterrupt
   \<and> snd (main_body run_with_failures io0) = Inr ()
   \<and> exit_status (snd (main run_interrupted io0)) = 0
   \<and> exit_status (snd (main run_with_failures io0)) = 0"
  by (simp add: main_def main_handlers_status example_bodies)


end
